theory Spec2Isabelle
  imports Main "HOL-Library.Word" "HOL-Library.Sublist"
begin

unbundle bit_operations_syntax

section \<open>Bytes, numbers and text\<close>

text \<open>
  An element of a \<^verbatim>\<open>Uint8Array\<close> is an 8-bit word; storing a number into one keeps it
  modulo 256 (\<open>of_nat\<close>, \<open>ucast\<close>).
\<close>

type_synonym byte = "8 word"

text \<open>
  The numbers of the decoder are integers or \<^verbatim>\<open>NaN\<close> (\<open>None\<close>). Reading an array outside
  its bounds gives \<^verbatim>\<open>undefined\<close>, which arithmetic and comparisons treat as \<^verbatim>\<open>NaN\<close> and the
  bitwise operators as 0, so one \<open>None\<close> stands for both.
\<close>

type_synonym number = "int option"

definition js_add :: "number \<Rightarrow> number \<Rightarrow> number" where
  "js_add a b = (case a of None \<Rightarrow> None | Some x \<Rightarrow> (case b of None \<Rightarrow> None | Some y \<Rightarrow> Some (x + y)))"

definition js_ge :: "number \<Rightarrow> number \<Rightarrow> bool" where
  "js_ge a b = (case a of None \<Rightarrow> False | Some x \<Rightarrow> (case b of None \<Rightarrow> False | Some y \<Rightarrow> x \<ge> y))"

definition js_gt :: "number \<Rightarrow> number \<Rightarrow> bool" where
  "js_gt a b = (case a of None \<Rightarrow> False | Some x \<Rightarrow> (case b of None \<Rightarrow> False | Some y \<Rightarrow> x > y))"

definition js_lt :: "number \<Rightarrow> number \<Rightarrow> bool" where
  "js_lt a b = (case a of None \<Rightarrow> False | Some x \<Rightarrow> (case b of None \<Rightarrow> False | Some y \<Rightarrow> x < y))"

definition js_length :: "byte list \<Rightarrow> number" where
  "js_length data = Some (int (length data))"

text \<open>\<^verbatim>\<open>data[i]\<close>: \<^verbatim>\<open>undefined\<close> when \<open>i\<close> is negative, \<^verbatim>\<open>NaN\<close> or past the end.\<close>

definition js_index :: "byte list \<Rightarrow> number \<Rightarrow> number" where
  "js_index data i =
     (case i of
        None \<Rightarrow> None
      | Some k \<Rightarrow> if 0 \<le> k \<and> k < int (length data) then Some (uint (data ! nat k)) else None)"

text \<open>\<^verbatim>\<open>ToInt32\<close>, applied by \<^verbatim>\<open>&\<close>, \<^verbatim>\<open>|\<close> and \<^verbatim>\<open><<\<close> to their operands.\<close>

definition ToInt32 :: "number \<Rightarrow> 32 word" where
  "ToInt32 n = (case n of None \<Rightarrow> 0 | Some k \<Rightarrow> word_of_int k)"

text \<open>
  \<^verbatim>\<open>data.slice(start, end)\<close> of a typed array, both arguments given: \<^verbatim>\<open>NaN\<close> counts as 0,
  a negative index counts from the end, the bounds are clamped to the array and an
  empty range gives the empty array.
\<close>

definition js_slice :: "byte list \<Rightarrow> number \<Rightarrow> number \<Rightarrow> byte list" where
  "js_slice data start end =
     (let len = int (length data);
          relativeStart = (case start of None \<Rightarrow> 0 | Some s \<Rightarrow> s);
          k = (if relativeStart < 0 then max (len + relativeStart) 0 else min relativeStart len);
          relativeEnd = (case end of None \<Rightarrow> 0 | Some e \<Rightarrow> e);
          final = (if relativeEnd < 0 then max (len + relativeEnd) 0 else min relativeEnd len)
      in take (nat (final - k)) (drop (nat k) data))"

text \<open>
  A string is the list of its UTF-8 code units (a HOL \<open>char\<close> is a byte), which
  \<^verbatim>\<open>TextEncoder.encode\<close> returns as they are.
\<close>

definition TextEncoder_encode :: "string \<Rightarrow> byte list" where
  "TextEncoder_encode s = map (\<lambda>c. of_nat (of_char c)) s"

text \<open>
  \<^verbatim>\<open>new TextDecoder().decode(bytes)\<close> is the UTF-8 decoder of the runtime, in its default
  mode: it does not fail. It reads a lead byte, then as many continuation bytes as the lead
  byte asks for (\<open>needed\<close>), the first of them within \<open>lower\<close> and \<open>upper\<close>. A byte that cannot
  start a sequence, a sequence cut by a byte that cannot continue it (that byte is then read
  again as a lead byte) and a sequence cut by the end of the input each give one U+FFFD, whose
  code units are \<^verbatim>\<open>EF BF BD\<close>. A well-formed sequence gives the character it encodes, here the
  same code units (\<open>seen\<close>).
\<close>

definition REPLACEMENT_CHARACTER :: "byte list" where
  "REPLACEMENT_CHARACTER = [0xEF, 0xBF, 0xBD]"

fun utf8_decoder :: "nat \<Rightarrow> byte list \<Rightarrow> byte \<Rightarrow> byte \<Rightarrow> byte list \<Rightarrow> byte list" where
  "utf8_decoder needed seen lower upper [] =
     (if needed \<noteq> 0 then REPLACEMENT_CHARACTER else [])"
| "utf8_decoder needed seen lower upper (b # bs) =
     (if needed = 0 then
        if b \<le> 0x7F then b # utf8_decoder 0 [] 0x80 0xBF bs
        else if 0xC2 \<le> b \<and> b \<le> 0xDF then utf8_decoder 1 [b] 0x80 0xBF bs
        else if 0xE0 \<le> b \<and> b \<le> 0xEF then
          utf8_decoder 2 [b] (if b = 0xE0 then 0xA0 else 0x80) (if b = 0xED then 0x9F else 0xBF) bs
        else if 0xF0 \<le> b \<and> b \<le> 0xF4 then
          utf8_decoder 3 [b] (if b = 0xF0 then 0x90 else 0x80) (if b = 0xF4 then 0x8F else 0xBF) bs
        else REPLACEMENT_CHARACTER @ utf8_decoder 0 [] 0x80 0xBF bs
      else if b < lower \<or> upper < b then
        REPLACEMENT_CHARACTER @ utf8_decoder 0 [] 0x80 0xBF (b # bs)
      else if needed = 1 then seen @ [b] @ utf8_decoder 0 [] 0x80 0xBF bs
      else utf8_decoder (needed - 1) (seen @ [b]) 0x80 0xBF bs)"

text \<open>A byte-order mark \<^verbatim>\<open>EF BB BF\<close> at the start of the input is dropped, once.\<close>

definition TextDecoder_decode :: "byte list \<Rightarrow> string" where
  "TextDecoder_decode bs =
     map (\<lambda>b. char_of (unat b))
       (utf8_decoder 0 [] 0x80 0xBF (if take 3 bs = [0xEF, 0xBB, 0xBF] then drop 3 bs else bs))"

text \<open>\<^verbatim>\<open>s.replace(pattern, replacement)\<close> with a string pattern: the first occurrence only.\<close>

fun String_replace :: "string \<Rightarrow> string \<Rightarrow> string \<Rightarrow> string" where
  "String_replace [] pat rep = (if pat = [] then rep else [])"
| "String_replace (c # cs) pat rep =
     (if prefix pat (c # cs) then rep @ drop (length pat) (c # cs)
      else c # String_replace cs pat rep)"

section \<open>Errors\<close>

datatype field =
    TYPE_LENGTH | PAYLOAD_LENGTH_short | PAYLOAD_LENGTH_long | ID_LENGTH | TYPE_bytes | ID_bytes | PAYLOAD_bytes

text \<open>
  One constructor for each \<^verbatim>\<open>throw\<close> of the source, named after its message. The last two
  come from the runtime: the \<^verbatim>\<open>TypeError\<close> of spreading \<^verbatim>\<open>undefined\<close>, and the \<^verbatim>\<open>SyntaxError\<close>
  that \<^verbatim>\<open>JSON.parse\<close> throws, with its message. The source declares no error class of its own
  and never puts an error into another one.
\<close>

datatype error =
    TLV_not_enough_data
  | TLV_first_byte_is_not_0x03
  | TLV_last_byte_is_not_0xFE
  | TLV_long_length_format_requires_at_least_5_bytes
  | TLV_invalid_length_field_format
  | TLV_expected_total_length nat nat
  | TLV_length_field_must_be_1_or_3_bytes
  | Unexpected_end_of_data_while_parsing_NDEF_record
  | Unexpected_end_of_data_while_reading field
  | Chunked_records_are_not_supported_yet
  | Unknown_TNF_code nat
  | URI_record_payload_cannot_be_empty
  | Invalid_prefix_code nat
  | Provided_URI_is_not_a_valid_URI
  | Payload_length_exceeds_maximum
  | Type_length_exceeds_maximum
  | ID_length_exceeds_maximum
  | Multiple_records_with_message_begin_flag
  | Multiple_records_with_message_end_flag
  | No_record_with_message_begin_flag
  | No_record_with_message_end_flag
  | Spread_of_undefined
  | JSON_SyntaxError string

section \<open>Type name formats\<close>

datatype TNF =
    empty | well_known | media | absolute_uri | forum_external | unknown | unchanged | reserved

text \<open>
  \<^verbatim>\<open>TNFLookup\<close> throws for a key that is not in its table; the eight values of the type are
  all there, so on \<open>TNF\<close> it is total.
\<close>

fun TNFLookup :: "TNF \<Rightarrow> nat" where
  "TNFLookup empty = 0"
| "TNFLookup well_known = 1"
| "TNFLookup media = 2"
| "TNFLookup absolute_uri = 3"
| "TNFLookup forum_external = 4"
| "TNFLookup unknown = 5"
| "TNFLookup unchanged = 6"
| "TNFLookup reserved = 7"

definition TNFCodeLookup :: "nat \<Rightarrow> error + TNF" where
  "TNFCodeLookup tnfCode =
     (if tnfCode = 0 then Inr empty
      else if tnfCode = 1 then Inr well_known
      else if tnfCode = 2 then Inr media
      else if tnfCode = 3 then Inr absolute_uri
      else if tnfCode = 4 then Inr forum_external
      else if tnfCode = 5 then Inr unknown
      else if tnfCode = 6 then Inr unchanged
      else if tnfCode = 7 then Inr reserved
      else Inl (Unknown_TNF_code tnfCode))"

section \<open>The header byte\<close>

record HeaderBytesInfo =
  tnfCode :: nat
  isBeginning :: bool
  isEnd :: bool
  isIdPresent :: bool
  isShortRecord :: bool
  isChunked :: bool

text \<open>
  \<^verbatim>\<open>constructHeaderByte\<close>: the flags are or-ed into a 32-bit integer, which the one-element
  \<^verbatim>\<open>Uint8Array\<close> keeps modulo 256.
\<close>

definition constructHeaderByte :: "HeaderBytesInfo \<Rightarrow> byte list" where
  "constructHeaderByte info =
     (let headerByte = (0 :: 32 word);
          headerByte = (if isBeginning info then headerByte OR push_bit 7 1 else headerByte);
          headerByte = (if isEnd info then headerByte OR push_bit 6 1 else headerByte);
          headerByte = (if isChunked info then headerByte OR push_bit 5 1 else headerByte);
          headerByte = (if isShortRecord info then headerByte OR push_bit 4 1 else headerByte);
          headerByte = (if isIdPresent info then headerByte OR push_bit 3 1 else headerByte);
          headerByte = headerByte OR push_bit 0 (of_nat (tnfCode info) AND 7)
      in [ucast headerByte])"

record NDEFRecordHeader =
  tnf :: TNF
  messageBeginFlag :: bool
  messageEndFlag :: bool
  chunkFlag :: bool
  shortRecordFlag :: bool
  idLengthFlag :: bool

definition parseNDEFRecordHeader :: "number \<Rightarrow> error + NDEFRecordHeader" where
  "parseNDEFRecordHeader headerByte =
     (let chunkFlag' = (ToInt32 headerByte AND 0x20 \<noteq> 0) in
      if chunkFlag' then Inl Chunked_records_are_not_supported_yet
      else case TNFCodeLookup (unat (ToInt32 headerByte AND 0x07)) of
             Inl e \<Rightarrow> Inl e
           | Inr t \<Rightarrow> Inr \<lparr>tnf = t,
                          messageBeginFlag = (ToInt32 headerByte AND 0x80 \<noteq> 0),
                          messageEndFlag = (ToInt32 headerByte AND 0x40 \<noteq> 0),
                          chunkFlag = False,
                          shortRecordFlag = (ToInt32 headerByte AND 0x10 \<noteq> 0),
                          idLengthFlag = (ToInt32 headerByte AND 0x08 \<noteq> 0)\<rparr>)"

section \<open>The TLV envelope\<close>

text \<open>
  \<^verbatim>\<open>stripLeadingTrailingZeros\<close>: \<^verbatim>\<open>start\<close> moves right over zero bytes, then \<^verbatim>\<open>end\<close> moves left
  over zero bytes while it is above \<^verbatim>\<open>start\<close>; the result is the slice between them.
\<close>

definition stripLeadingTrailingZeros :: "byte list \<Rightarrow> byte list" where
  "stripLeadingTrailingZeros data =
     rev (dropWhile (\<lambda>b. b = 0x00) (rev (dropWhile (\<lambda>b. b = 0x00) data)))"

text \<open>
  \<^verbatim>\<open>validateAndStripTLV\<close>. Every index it reads is below the length checked before,
  so the reads are plain \<open>!\<close>. The two-byte length is \<^verbatim>\<open>(data[2] << 8) | data[3]\<close>.
\<close>

definition validateAndStripTLV :: "byte list \<Rightarrow> error + byte list" where
  "validateAndStripTLV data =
     (if length data < 3 then Inl TLV_not_enough_data
      else if data ! 0 \<noteq> 0x03 then Inl TLV_first_byte_is_not_0x03
      else if data ! (length data - 1) \<noteq> 0xFE then Inl TLV_last_byte_is_not_0xFE
      else
        case (if data ! 1 < 0xFF then Inr (unat (data ! 1), 2)
              else if data ! 1 = 0xFF then
                (if length data < 5 then Inl TLV_long_length_format_requires_at_least_5_bytes
                 else Inr (unat (push_bit 8 (ucast (data ! 2) :: 32 word) OR ucast (data ! 3)), 4))
              else Inl TLV_invalid_length_field_format)
        of
          Inl e \<Rightarrow> Inl e
        | Inr (len, headerSize) \<Rightarrow>
            (let expectedTotalLength = headerSize + len + 1 in
             if length data \<noteq> expectedTotalLength
             then Inl (TLV_expected_total_length expectedTotalLength (length data))
             else if len = 0 then Inr []
             else if length data = 4 then Inl TLV_length_field_must_be_1_or_3_bytes
             else Inr (js_slice data (Some (int headerSize)) (Some (int (length data) - 1)))))"

section \<open>The URI prefix table\<close>

record PrefixMapping =
  URIIdentifierPrefix :: nat
  URISuffix :: string

text \<open>The cases of the \<^verbatim>\<open>switch (true)\<close> of \<^verbatim>\<open>getWellKnownURIPrefixMapping\<close>, in its order.\<close>

definition URI_prefix_cases :: "(string \<times> nat) list" where
  "URI_prefix_cases =
     [(''http://www.'', 0x01), (''https://www.'', 0x02), (''http://'', 0x03), (''https://'', 0x04),
      (''tel:'', 0x05), (''mailto:'', 0x06), (''ftp://anonymous:anonymous@'', 0x07),
      (''ftp://ftp.'', 0x08), (''ftps://'', 0x09), (''sftp://'', 0x0A), (''smb://'', 0x0B),
      (''nfs://'', 0x0C), (''ftp://'', 0x0D), (''dav://'', 0x0E), (''news:'', 0x0F),
      (''telnet://'', 0x10), (''imap:'', 0x11), (''rtsp://'', 0x12), (''urn:'', 0x13),
      (''pop:'', 0x14), (''sip:'', 0x15), (''sips:'', 0x16), (''tftp:'', 0x17),
      (''btspp://'', 0x18), (''btl2cap://'', 0x19), (''btgoep://'', 0x1A),
      (''tcpobex://'', 0x1B), (''irdaobex://'', 0x1C), (''file://'', 0x1D),
      (''urn:epc:id:'', 0x1E), (''urn:epc:tag:'', 0x1F), (''urn:epc:pat:'', 0x20),
      (''urn:epc:raw:'', 0x21), (''urn:epc:'', 0x22), (''urn:nfc:'', 0x23)]"

text \<open>
  \<^verbatim>\<open>URL.canParse\<close>, \<^verbatim>\<open>JSON.parse\<close> and \<^verbatim>\<open>JSON.stringify\<close> belong to the runtime, not to this
  library: they are parameters of the model. \<open>'j\<close> is the type of JSON values;
  \<open>JSON_parse\<close> returns the message of the \<^verbatim>\<open>SyntaxError\<close> on the left.
\<close>

record 'j platform =
  URL_canParse :: "string \<Rightarrow> bool"
  JSON_parse :: "string \<Rightarrow> string + 'j"
  JSON_stringify :: "'j \<Rightarrow> string"

text \<open>The first case whose prefix the URI starts with is taken.\<close>

definition getWellKnownURIPrefixMapping :: "'j platform \<Rightarrow> string \<Rightarrow> error + PrefixMapping" where
  "getWellKnownURIPrefixMapping pf URI =
     (if \<not> URL_canParse pf URI then Inl Provided_URI_is_not_a_valid_URI
      else case find (\<lambda>(p, c). prefix p URI) URI_prefix_cases of
             Some (p, c) \<Rightarrow> Inr \<lparr>URIIdentifierPrefix = c, URISuffix = String_replace URI p []\<rparr>
           | None \<Rightarrow> Inr \<lparr>URIIdentifierPrefix = 0x00, URISuffix = URI\<rparr>)"

definition prefixMappings :: "(nat \<times> string) list" where
  "prefixMappings =
     [(0x00, []), (0x01, ''http://www.''), (0x02, ''https://www.''), (0x03, ''http://''),
      (0x04, ''https://''), (0x05, ''tel:''), (0x06, ''mailto:''),
      (0x07, ''ftp://anonymous:anonymous@''), (0x08, ''ftp://ftp.''), (0x09, ''ftps://''),
      (0x0A, ''sftp://''), (0x0B, ''smb://''), (0x0C, ''nfs://''), (0x0D, ''ftp://''),
      (0x0E, ''dav://''), (0x0F, ''news:''), (0x10, ''telnet://''), (0x11, ''imap:''),
      (0x12, ''rtsp://''), (0x13, ''urn:''), (0x14, ''pop:''), (0x15, ''sip:''), (0x16, ''sips:''),
      (0x17, ''tftp:''), (0x18, ''btspp://''), (0x19, ''btl2cap://''), (0x1A, ''btgoep://''),
      (0x1B, ''tcpobex://''), (0x1C, ''irdaobex://''), (0x1D, ''file://''),
      (0x1E, ''urn:epc:id:''), (0x1F, ''urn:epc:tag:''), (0x20, ''urn:epc:pat:''),
      (0x21, ''urn:epc:raw:''), (0x22, ''urn:epc:''), (0x23, ''urn:nfc:'')]"

definition reconstructURIFromPrefix :: "nat \<Rightarrow> string \<Rightarrow> error + string" where
  "reconstructURIFromPrefix prefixCode suffix' =
     (case map_of prefixMappings prefixCode of
        None \<Rightarrow> Inl (Invalid_prefix_code prefixCode)
      | Some p \<Rightarrow> Inr (p @ suffix'))"

section \<open>Records\<close>

datatype 'j payload_value = Text string | Binary "byte list" | Json 'j

text \<open>
  \<^verbatim>\<open>SafePayload\<close> is a discriminated union: \<open>Success p\<close> is
  \<^verbatim>\<open>{success: true, payload: p, error: undefined}\<close> and \<open>Failure m\<close> is
  \<^verbatim>\<open>{success: false, payload: undefined, error: m}\<close>.
\<close>

datatype 'j SafePayload = Success "'j payload_value" | Failure string

text \<open>
  A record object. The accessors that reach into the runtime take it as an argument when
  they are called, which is when the source evaluates them; \<^verbatim>\<open>rawType\<close> and \<^verbatim>\<open>rawId\<close> are
  thunks over constants and are kept as their values (\<open>None\<close> for \<^verbatim>\<open>undefined\<close>).
  A \<^verbatim>\<open>payload\<close> that throws returns the error on the left.
\<close>

record 'j NDEFRecord =
  tnf :: TNF
  payload :: "'j platform \<Rightarrow> error + 'j payload_value"
  safePayload :: "'j platform \<Rightarrow> 'j SafePayload"
  rawPayload :: "'j platform \<Rightarrow> byte list"
  type :: string
  rawType :: "byte list"
  id' :: "string option"
  rawId :: "byte list option"
  isIdentified :: bool

text \<open>\<^verbatim>\<open>id ? () => encode(id) : () => undefined\<close>: the empty string is falsy.\<close>

definition rawId_if_truthy :: "string option \<Rightarrow> byte list option" where
  "rawId_if_truthy i =
     (case i of None \<Rightarrow> None | Some s \<Rightarrow> if s = [] then None else Some (TextEncoder_encode s))"

text \<open>\<^verbatim>\<open>prepareIdForRecord\<close>: any string, the empty one too, gets a \<^verbatim>\<open>rawId\<close>.\<close>

definition prepareIdForRecord :: "string option \<Rightarrow> byte list option" where
  "prepareIdForRecord i = (case i of None \<Rightarrow> None | Some s \<Rightarrow> Some (TextEncoder_encode s))"

definition createUnidentifiedRecord ::
  "TNF \<Rightarrow> string \<Rightarrow> byte list \<Rightarrow> string option \<Rightarrow> 'j NDEFRecord" where
  "createUnidentifiedRecord t ty raw i =
     \<lparr>tnf = t,
      payload = (\<lambda>pf. Inr (Binary raw)),
      safePayload = (\<lambda>pf. Success (Binary raw)),
      rawPayload = (\<lambda>pf. raw),
      type = ty,
      rawType = TextEncoder_encode ty,
      id' = i,
      rawId = rawId_if_truthy i,
      isIdentified = False\<rparr>"

subsection \<open>Records built by the caller\<close>

definition createNDEFRecordWellKnownURI ::
  "'j platform \<Rightarrow> string \<Rightarrow> string option \<Rightarrow> error + 'j NDEFRecord" where
  "createNDEFRecordWellKnownURI pf0 URI i =
     (case getWellKnownURIPrefixMapping pf0 URI of
        Inl e \<Rightarrow> Inl e
      | Inr m \<Rightarrow>
          Inr \<lparr>tnf = well_known,
               payload = (\<lambda>pf. Inr (Text URI)),
               safePayload = (\<lambda>pf. Success (Text URI)),
               rawPayload = (\<lambda>pf. of_nat (URIIdentifierPrefix m) # TextEncoder_encode (URISuffix m)),
               type = ''U'',
               rawType = TextEncoder_encode ''U'',
               id' = i,
               rawId = prepareIdForRecord i,
               isIdentified = True\<rparr>)"

definition createNDEFRecordMediaApplicationJson :: "'j \<Rightarrow> string option \<Rightarrow> 'j NDEFRecord" where
  "createNDEFRecordMediaApplicationJson v i =
     \<lparr>tnf = media,
      payload = (\<lambda>pf. Inr (Json v)),
      safePayload = (\<lambda>pf. Success (Json v)),
      rawPayload = (\<lambda>pf. TextEncoder_encode (JSON_stringify pf v)),
      type = ''application/json'',
      rawType = TextEncoder_encode ''application/json'',
      id' = i,
      rawId = prepareIdForRecord i,
      isIdentified = True\<rparr>"

text \<open>\<^verbatim>\<open>createNDEFRecordMediaTextPlain\<close> and \<^verbatim>\<open>createNDEFRecordMediaTextHTML\<close> differ in the type.\<close>

definition createNDEFRecordMediaText :: "string \<Rightarrow> string \<Rightarrow> string option \<Rightarrow> 'j NDEFRecord" where
  "createNDEFRecordMediaText ty s i =
     \<lparr>tnf = media,
      payload = (\<lambda>pf. Inr (Text s)),
      safePayload = (\<lambda>pf. Success (Text s)),
      rawPayload = (\<lambda>pf. TextEncoder_encode s),
      type = ty,
      rawType = TextEncoder_encode ty,
      id' = i,
      rawId = prepareIdForRecord i,
      isIdentified = True\<rparr>"

definition createNDEFRecordMediaTextPlain :: "string \<Rightarrow> string option \<Rightarrow> 'j NDEFRecord" where
  "createNDEFRecordMediaTextPlain = createNDEFRecordMediaText ''text/plain''"

definition createNDEFRecordMediaTextHTML :: "string \<Rightarrow> string option \<Rightarrow> 'j NDEFRecord" where
  "createNDEFRecordMediaTextHTML = createNDEFRecordMediaText ''text/html''"

text \<open>
  The four binary factories (\<^verbatim>\<open>image/png\<close>, \<^verbatim>\<open>image/jpeg\<close>, \<^verbatim>\<open>video/mp4\<close>, \<^verbatim>\<open>audio/mpeg\<close>)
  differ in the type; \<^verbatim>\<open>binaryLikeToUint8Array\<close> gives the bytes of the payload.
\<close>

definition createNDEFRecordMediaBinary :: "string \<Rightarrow> byte list \<Rightarrow> string option \<Rightarrow> 'j NDEFRecord" where
  "createNDEFRecordMediaBinary ty bs i =
     \<lparr>tnf = media,
      payload = (\<lambda>pf. Inr (Binary bs)),
      safePayload = (\<lambda>pf. Success (Binary bs)),
      rawPayload = (\<lambda>pf. bs),
      type = ty,
      rawType = TextEncoder_encode ty,
      id' = i,
      rawId = prepareIdForRecord i,
      isIdentified = True\<rparr>"

subsection \<open>Records rebuilt by the parser\<close>

definition createNDEFRecordWellKnownURIFromBytes ::
  "byte list \<Rightarrow> string option \<Rightarrow> error + 'j NDEFRecord" where
  "createNDEFRecordWellKnownURIFromBytes raw i =
     (if length raw = 0 then Inl URI_record_payload_cannot_be_empty
      else
        let prefixCode = unat (raw ! 0);
            suffixBytes = drop 1 raw;
            suffix' = TextDecoder_decode suffixBytes
        in case reconstructURIFromPrefix prefixCode suffix' of
             Inl e \<Rightarrow> Inl e
           | Inr fullURI \<Rightarrow>
               Inr \<lparr>tnf = well_known,
                    payload = (\<lambda>pf. Inr (Text fullURI)),
                    safePayload = (\<lambda>pf. Success (Text fullURI)),
                    rawPayload = (\<lambda>pf. raw),
                    type = ''U'',
                    rawType = TextEncoder_encode ''U'',
                    id' = i,
                    rawId = rawId_if_truthy i,
                    isIdentified = True\<rparr>)"

text \<open>
  The JSON text is parsed when \<^verbatim>\<open>payload\<close> or \<^verbatim>\<open>safePayload\<close> is called, not when the record
  is built. \<^verbatim>\<open>payload\<close> lets the \<^verbatim>\<open>SyntaxError\<close> of \<^verbatim>\<open>JSON.parse\<close> through; \<^verbatim>\<open>safePayload\<close>
  catches it and returns its message.
\<close>

definition createNDEFRecordMediaApplicationJsonFromBytes ::
  "byte list \<Rightarrow> string option \<Rightarrow> 'j NDEFRecord" where
  "createNDEFRecordMediaApplicationJsonFromBytes raw i =
     \<lparr>tnf = media,
      payload = (\<lambda>pf. case JSON_parse pf (TextDecoder_decode raw) of
                         Inl m \<Rightarrow> Inl (JSON_SyntaxError m)
                       | Inr v \<Rightarrow> Inr (Json v)),
      safePayload = (\<lambda>pf. case JSON_parse pf (TextDecoder_decode raw) of
                             Inl m \<Rightarrow> Failure m
                           | Inr v \<Rightarrow> Success (Json v)),
      rawPayload = (\<lambda>pf. raw),
      type = ''application/json'',
      rawType = TextEncoder_encode ''application/json'',
      id' = i,
      rawId = rawId_if_truthy i,
      isIdentified = True\<rparr>"

definition createNDEFRecordMediaTextFromBytes ::
  "string \<Rightarrow> byte list \<Rightarrow> string option \<Rightarrow> 'j NDEFRecord" where
  "createNDEFRecordMediaTextFromBytes ty raw i =
     \<lparr>tnf = media,
      payload = (\<lambda>pf. Inr (Text (TextDecoder_decode raw))),
      safePayload = (\<lambda>pf. Success (Text (TextDecoder_decode raw))),
      rawPayload = (\<lambda>pf. raw),
      type = ty,
      rawType = TextEncoder_encode ty,
      id' = i,
      rawId = rawId_if_truthy i,
      isIdentified = True\<rparr>"

definition createNDEFRecordMediaBinaryFromBytes ::
  "string \<Rightarrow> byte list \<Rightarrow> string option \<Rightarrow> 'j NDEFRecord" where
  "createNDEFRecordMediaBinaryFromBytes ty raw i =
     \<lparr>tnf = media,
      payload = (\<lambda>pf. Inr (Binary raw)),
      safePayload = (\<lambda>pf. Success (Binary raw)),
      rawPayload = (\<lambda>pf. raw),
      type = ty,
      rawType = TextEncoder_encode ty,
      id' = i,
      rawId = rawId_if_truthy i,
      isIdentified = True\<rparr>"

definition createWellKnownRecord ::
  "string \<Rightarrow> byte list \<Rightarrow> string option \<Rightarrow> error + 'j NDEFRecord" where
  "createWellKnownRecord ty raw i =
     (if ty = ''U'' then createNDEFRecordWellKnownURIFromBytes raw i
      else Inr (createUnidentifiedRecord well_known ty raw i))"

definition createMediaRecord :: "string \<Rightarrow> byte list \<Rightarrow> string option \<Rightarrow> 'j NDEFRecord" where
  "createMediaRecord ty raw i =
     (if ty = ''application/json'' then createNDEFRecordMediaApplicationJsonFromBytes raw i
      else if ty = ''text/plain'' then createNDEFRecordMediaTextFromBytes ''text/plain'' raw i
      else if ty = ''text/html'' then createNDEFRecordMediaTextFromBytes ''text/html'' raw i
      else if ty = ''image/png'' then createNDEFRecordMediaBinaryFromBytes ''image/png'' raw i
      else if ty = ''image/jpeg'' then createNDEFRecordMediaBinaryFromBytes ''image/jpeg'' raw i
      else if ty = ''video/mp4'' then createNDEFRecordMediaBinaryFromBytes ''video/mp4'' raw i
      else if ty = ''audio/mpeg'' then createNDEFRecordMediaBinaryFromBytes ''audio/mpeg'' raw i
      else createUnidentifiedRecord media ty raw i)"

definition createNDEFRecordFromRawData ::
  "TNF \<Rightarrow> byte list \<Rightarrow> byte list \<Rightarrow> byte list option \<Rightarrow> error + 'j NDEFRecord" where
  "createNDEFRecordFromRawData t rawTy raw rawI =
     (let typeString = TextDecoder_decode rawTy;
          i = map_option TextDecoder_decode rawI
      in if t = well_known then createWellKnownRecord typeString raw i
         else if t = media then Inr (createMediaRecord typeString raw i)
         else Inr (createUnidentifiedRecord t typeString raw i))"

section \<open>Encoding\<close>

record 'j RecordInfo =
  record' :: "'j NDEFRecord"
  isBeginning :: bool
  isEnd :: bool

text \<open>
  \<^verbatim>\<open>constructBytesFromRecordInfo\<close>. The bytes of a long payload length are
  \<^verbatim>\<open>(length >> 24) & 0xFF\<close> and so on, on the 32-bit integer of the length; an id is present
  when \<^verbatim>\<open>rawId\<close> is an array, empty or not.
\<close>

definition constructBytesFromRecordInfo :: "'j platform \<Rightarrow> 'j RecordInfo \<Rightarrow> error + byte list" where
  "constructBytesFromRecordInfo pf info =
     (let rawPayload' = rawPayload (record' info) pf;
          rawType' = rawType (record' info);
          rawId' = rawId (record' info)
      in
        if length rawPayload' > 2 ^ 32 - 1 then Inl Payload_length_exceeds_maximum
        else if length rawType' > 255 then Inl Type_length_exceeds_maximum
        else if (case rawId' of None \<Rightarrow> False | Some i \<Rightarrow> length i > 255)
          then Inl ID_length_exceeds_maximum
        else
          let isShortRecord' = (length rawPayload' < 256);
              isIdPresent' = (rawId' \<noteq> None);
              headerBytes = constructHeaderByte
                \<lparr>tnfCode = TNFLookup (tnf (record' info)),
                 HeaderBytesInfo.isBeginning = isBeginning info,
                 HeaderBytesInfo.isEnd = isEnd info,
                 isIdPresent = isIdPresent',
                 isShortRecord = isShortRecord',
                 isChunked = False\<rparr>;
              typeLengthBytes = [of_nat (length rawType') :: byte];
              len32 = (of_nat (length rawPayload') :: 32 word);
              payloadLengthBytes =
                (if isShortRecord' then [of_nat (length rawPayload') :: byte]
                 else [ucast (signed_drop_bit 24 len32 AND 0xFF),
                       ucast (signed_drop_bit 16 len32 AND 0xFF),
                       ucast (signed_drop_bit 8 len32 AND 0xFF),
                       ucast (len32 AND 0xFF)]);
              idLengthBytes = (case rawId' of None \<Rightarrow> [] | Some i \<Rightarrow> [of_nat (length i) :: byte]);
              typeBytes = rawType';
              idBytes = (case rawId' of None \<Rightarrow> [] | Some i \<Rightarrow> i);
              payloadBytes = rawPayload'
          in Inr (headerBytes @ typeLengthBytes @ payloadLengthBytes @ idLengthBytes
                  @ typeBytes @ idBytes @ payloadBytes))"

text \<open>The variables of the loop of \<^verbatim>\<open>constructBytes\<close>.\<close>

record constructBytes_state =
  result :: "byte list"
  hasBeginning :: bool
  hasEnd :: bool
  hasMultipleBeginning :: bool
  hasMultipleEnd :: bool

fun constructBytes_loop ::
  "'j platform \<Rightarrow> 'j RecordInfo list \<Rightarrow> constructBytes_state \<Rightarrow> error + constructBytes_state" where
  "constructBytes_loop pf [] st = Inr st"
| "constructBytes_loop pf (info # infos) st =
     (let st = (if isBeginning info
                then st\<lparr>hasMultipleBeginning := (if hasBeginning st then True else hasMultipleBeginning st),
                        hasBeginning := True\<rparr>
                else st);
          st = (if isEnd info
                then st\<lparr>hasMultipleEnd := (if hasEnd st then True else hasMultipleEnd st),
                        hasEnd := True\<rparr>
                else st)
      in case constructBytesFromRecordInfo pf info of
           Inl e \<Rightarrow> Inl e
         | Inr recordBytes \<Rightarrow> constructBytes_loop pf infos (st\<lparr>result := result st @ recordBytes\<rparr>))"

text \<open>
  \<^verbatim>\<open>constructBytes\<close>. Above 254 bytes the source fills a local \<^verbatim>\<open>lengthBytes\<close> with
  \<^verbatim>\<open>0xFF\<close> and the two bytes of the length, and leaves \<^verbatim>\<open>NDEFMessageLength\<close> unassigned:
  spreading it into the final array throws a \<^verbatim>\<open>TypeError\<close>.
\<close>

definition constructBytes :: "'j platform \<Rightarrow> 'j RecordInfo list \<Rightarrow> error + byte list" where
  "constructBytes pf infos =
     (if length infos = 0 then Inr []
      else
        case constructBytes_loop pf infos
               \<lparr>result = [], hasBeginning = False, hasEnd = False,
                hasMultipleBeginning = False, hasMultipleEnd = False\<rparr> of
          Inl e \<Rightarrow> Inl e
        | Inr st \<Rightarrow>
            if hasMultipleBeginning st then Inl Multiple_records_with_message_begin_flag
            else if hasMultipleEnd st then Inl Multiple_records_with_message_end_flag
            else if \<not> hasBeginning st then Inl No_record_with_message_begin_flag
            else if \<not> hasEnd st then Inl No_record_with_message_end_flag
            else
              let messageLength = length (result st);
                  NDEFMessagePrefix = (0x03 :: byte);
                  NDEFMessageLength =
                    (if length (result st) > 0xFE
                     then (let lengthBytes = [0xFF :: byte,
                                              ucast (signed_drop_bit 8 (of_nat messageLength :: 32 word) AND 0xFF),
                                              ucast ((of_nat messageLength :: 32 word) AND 0xFF)]
                           in None)
                     else Some [of_nat messageLength :: byte]);
                  suffixByte = (0xFE :: byte)
              in (case NDEFMessageLength of
                    None \<Rightarrow> Inl Spread_of_undefined
                  | Some lengthField \<Rightarrow>
                      Inr ([NDEFMessagePrefix] @ lengthField @ result st @ [suffixByte])))"

text \<open>\<^verbatim>\<open>NDEFMessage.toBytes\<close>, on the records of the message.\<close>

definition toBytes :: "'j platform \<Rightarrow> 'j NDEFRecord list \<Rightarrow> error + byte list" where
  "toBytes pf records =
     constructBytes pf
       (map (\<lambda>(index, r). \<lparr>record' = r,
                            isBeginning = (index = 0),
                            isEnd = (int index = int (length records) - 1)\<rparr>)
            (enumerate 0 records))"

section \<open>Decoding\<close>

record 'j ParsedNDEFRecordResult =
  record' :: "'j NDEFRecord"
  nextOffset :: number
  isMessageEnd :: bool

text \<open>The fields of one record as \<^verbatim>\<open>parseNDEFRecord\<close> has read them before it builds the record.\<close>

record RawRecordFields =
  header :: NDEFRecordHeader
  rawTypeField :: "byte list"
  rawIdField :: "byte list option"
  rawPayloadField :: "byte list"
  offsetAfter :: number

text \<open>
  The first part of \<^verbatim>\<open>parseNDEFRecord\<close>, up to the payload. The four-byte payload length is
  \<^verbatim>\<open>(b0 << 24) | (b1 << 16) | (b2 << 8) | b3\<close>, a signed 32-bit integer.
\<close>

definition readRecordFields :: "byte list \<Rightarrow> number \<Rightarrow> error + RawRecordFields" where
  "readRecordFields data offset =
     (if js_ge offset (js_length data) then Inl Unexpected_end_of_data_while_parsing_NDEF_record
      else
        case parseNDEFRecordHeader (js_index data offset) of
          Inl e \<Rightarrow> Inl e
        | Inr hdr \<Rightarrow>
          (let offset = js_add offset (Some 1) in
           if js_ge offset (js_length data) then Inl (Unexpected_end_of_data_while_reading TYPE_LENGTH)
           else
             let typeLength = js_index data offset;
                 offset = js_add offset (Some 1)
             in
               (case (if shortRecordFlag hdr
                     then (if js_ge offset (js_length data)
                           then Inl (Unexpected_end_of_data_while_reading PAYLOAD_LENGTH_short)
                           else Inr (js_index data offset, js_add offset (Some 1)))
                     else (if js_gt (js_add offset (Some 4)) (js_length data)
                           then Inl (Unexpected_end_of_data_while_reading PAYLOAD_LENGTH_long)
                           else Inr (Some (sint (push_bit 24 (ToInt32 (js_index data offset))
                                                 OR push_bit 16 (ToInt32 (js_index data (js_add offset (Some 1))))
                                                 OR push_bit 8 (ToInt32 (js_index data (js_add offset (Some 2))))
                                                 OR ToInt32 (js_index data (js_add offset (Some 3))))),
                                     js_add offset (Some 4))))
               of
                 Inl e \<Rightarrow> Inl e
               | Inr (payloadLength, offset) \<Rightarrow>
                 (case (if idLengthFlag hdr
                        then (if js_ge offset (js_length data)
                              then Inl (Unexpected_end_of_data_while_reading ID_LENGTH)
                              else Inr (js_index data offset, js_add offset (Some 1)))
                        else Inr (Some 0, offset))
                  of
                    Inl e \<Rightarrow> Inl e
                  | Inr (idLength, offset) \<Rightarrow>
                    if js_gt (js_add offset typeLength) (js_length data)
                    then Inl (Unexpected_end_of_data_while_reading TYPE_bytes)
                    else
                      let rawType' = js_slice data offset (js_add offset typeLength);
                          offset = js_add offset typeLength
                      in
                        (case (if idLengthFlag hdr
                              then (if js_gt (js_add offset idLength) (js_length data)
                                    then Inl (Unexpected_end_of_data_while_reading ID_bytes)
                                    else Inr (Some (js_slice data offset (js_add offset idLength)),
                                              js_add offset idLength))
                              else Inr (None, offset))
                        of
                          Inl e \<Rightarrow> Inl e
                        | Inr (rawId', offset) \<Rightarrow>
                          if js_gt (js_add offset payloadLength) (js_length data)
                          then Inl (Unexpected_end_of_data_while_reading PAYLOAD_bytes)
                          else
                            let rawPayload' = js_slice data offset (js_add offset payloadLength);
                                offset = js_add offset payloadLength
                            in Inr \<lparr>header = hdr, rawTypeField = rawType', rawIdField = rawId',
                                    rawPayloadField = rawPayload', offsetAfter = offset\<rparr>)))))"

definition parseNDEFRecord :: "byte list \<Rightarrow> number \<Rightarrow> error + 'j ParsedNDEFRecordResult" where
  "parseNDEFRecord data offset =
     (case readRecordFields data offset of
        Inl e \<Rightarrow> Inl e
      | Inr f \<Rightarrow>
          (case createNDEFRecordFromRawData (NDEFRecordHeader.tnf (header f)) (rawTypeField f)
                  (rawPayloadField f) (rawIdField f) of
             Inl e \<Rightarrow> Inl e
           | Inr r \<Rightarrow> Inr \<lparr>record' = r, nextOffset = offsetAfter f,
                          isMessageEnd = messageEndFlag (header f)\<rparr>))"

text \<open>
  The \<^verbatim>\<open>while\<close> loop of \<^verbatim>\<open>parseNDEFMessage\<close>. Nothing bounds the number of its rounds, so
  its result is optional: \<open>None\<close> when the loop does not end.
\<close>

partial_function (option) parseNDEFMessage_loop ::
  "byte list \<Rightarrow> number \<Rightarrow> 'j NDEFRecord list \<Rightarrow> (error + 'j NDEFRecord list) option" where
  "parseNDEFMessage_loop data offset records =
     (if js_lt offset (js_length data) then
        (case parseNDEFRecord data offset of
           Inl e \<Rightarrow> Some (Inl e)
         | Inr recordResult \<Rightarrow>
             if isMessageEnd recordResult
             then Some (Inr (records @ [ParsedNDEFRecordResult.record' recordResult]))
             else parseNDEFMessage_loop data (nextOffset recordResult)
                    (records @ [ParsedNDEFRecordResult.record' recordResult]))
      else Some (Inr records))"

text \<open>\<^verbatim>\<open>parseNDEFMessage\<close>; the result is the record list of the message it returns.\<close>

definition parseNDEFMessage :: "byte list \<Rightarrow> (error + 'j NDEFRecord list) option" where
  "parseNDEFMessage data0 =
     (let data = stripLeadingTrailingZeros data0 in
      if length data = 0 then Some (Inr [])
      else case validateAndStripTLV data of
             Inl e \<Rightarrow> Some (Inl e)
           | Inr data \<Rightarrow>
               if length data = 0 then Some (Inr [])
               else parseNDEFMessage_loop data (Some 0) [])"

section \<open>Messages\<close>

text \<open>
  A message object holds a reference to its array of records, and the mutators change
  that array in place. The heap has the arrays and, for each message, the array its
  \<^verbatim>\<open>records\<close> field points to.
\<close>

record 'j heap =
  arrays :: "nat \<rightharpoonup> 'j NDEFRecord list"
  messages :: "nat \<rightharpoonup> nat"

text \<open>\<^verbatim>\<open>this.records\<close>, for a message of the heap.\<close>

definition records_of :: "'j heap \<Rightarrow> nat \<Rightarrow> 'j NDEFRecord list option" where
  "records_of h this = (case messages h this of None \<Rightarrow> None | Some a \<Rightarrow> arrays h a)"

text \<open>
  Each mutator returns the heap after the call and the reference it returns. Called on
  a reference that is no message of the heap, a case the source does not have, the model
  leaves the heap as it is.
\<close>

definition update_records ::
  "'j heap \<Rightarrow> nat \<Rightarrow> ('j NDEFRecord list \<Rightarrow> 'j NDEFRecord list) \<Rightarrow> 'j heap" where
  "update_records h this f =
     (case messages h this of
        None \<Rightarrow> h
      | Some a \<Rightarrow> (case arrays h a of
                     None \<Rightarrow> h
                   | Some rs \<Rightarrow> h\<lparr>arrays := (arrays h)(a \<mapsto> f rs)\<rparr>))"

definition addHead :: "'j heap \<Rightarrow> nat \<Rightarrow> 'j NDEFRecord \<Rightarrow> 'j heap \<times> nat" where
  "addHead h this hdr = (update_records h this (\<lambda>rs. hdr # rs), this)"

definition addTail :: "'j heap \<Rightarrow> nat \<Rightarrow> 'j NDEFRecord \<Rightarrow> 'j heap \<times> nat" where
  "addTail h this tail = (update_records h this (\<lambda>rs. rs @ [tail]), this)"

definition add :: "'j heap \<Rightarrow> nat \<Rightarrow> 'j NDEFRecord \<Rightarrow> 'j heap \<times> nat" where
  "add h this r = addTail h this r"

definition removeHead :: "'j heap \<Rightarrow> nat \<Rightarrow> 'j heap \<times> nat" where
  "removeHead h this =
     (if records_of h this = Some [] then (h, this)
      else (update_records h this (\<lambda>rs. drop 1 rs), this))"

definition removeTail :: "'j heap \<Rightarrow> nat \<Rightarrow> 'j heap \<times> nat" where
  "removeTail h this =
     (if records_of h this = Some [] then (h, this)
      else (update_records h this butlast, this))"

definition remove :: "'j heap \<Rightarrow> nat \<Rightarrow> 'j heap \<times> nat" where
  "remove h this = removeTail h this"

section \<open>Notions used in the statements\<close>

text \<open>
  \<open>loop_reaches data offset records\<close>: the loop of \<^verbatim>\<open>parseNDEFMessage\<close>, started on \<open>data\<close>,
  arrives at the head of a round with the cursor at \<open>offset\<close> and \<open>records\<close> collected so
  far. The record that starts at such an offset is a record of the message.
\<close>

inductive loop_reaches :: "byte list \<Rightarrow> number \<Rightarrow> 'j NDEFRecord list \<Rightarrow> bool"
  for data :: "byte list" where
  start: "loop_reaches data (Some 0) []"
| round: "loop_reaches data offset records \<Longrightarrow> js_lt offset (js_length data) \<Longrightarrow>
          parseNDEFRecord data offset = Inr recordResult \<Longrightarrow> \<not> isMessageEnd recordResult \<Longrightarrow>
          loop_reaches data (nextOffset recordResult)
            (records @ [ParsedNDEFRecordResult.record' recordResult])"

text \<open>
  \<open>reads_fields data offset fs\<close>: from \<open>offset\<close> on, the fields of one record after the other
  can be read from \<open>data\<close>, as \<^verbatim>\<open>parseNDEFRecord\<close> reads them, up to the first record that has
  the message-end flag or after which the cursor is not below the length of \<open>data\<close>; \<open>fs\<close> are
  the fields of these records. This is the structure of a message, whatever its records hold.
\<close>

inductive reads_fields :: "byte list \<Rightarrow> number \<Rightarrow> RawRecordFields list \<Rightarrow> bool"
  for data :: "byte list" where
  last_record: "js_lt offset (js_length data) \<Longrightarrow> readRecordFields data offset = Inr f \<Longrightarrow>
          messageEndFlag (header f) \<or> \<not> js_lt (offsetAfter f) (js_length data) \<Longrightarrow>
          reads_fields data offset [f]"
| more_records: "js_lt offset (js_length data) \<Longrightarrow> readRecordFields data offset = Inr f \<Longrightarrow>
          \<not> messageEndFlag (header f) \<Longrightarrow> js_lt (offsetAfter f) (js_length data) \<Longrightarrow>
          reads_fields data (offsetAfter f) fs \<Longrightarrow>
          reads_fields data offset (f # fs)"

text \<open>The record that \<^verbatim>\<open>parseNDEFRecord\<close> builds from the fields it has read.\<close>

definition record_of_fields :: "RawRecordFields \<Rightarrow> error + 'j NDEFRecord" where
  "record_of_fields f =
     createNDEFRecordFromRawData (NDEFRecordHeader.tnf (header f)) (rawTypeField f)
       (rawPayloadField f) (rawIdField f)"

text \<open>
  A small runtime for concrete evaluations: \<^verbatim>\<open>URL.canParse\<close> accepts the strings with a
  colon, and \<^verbatim>\<open>null\<close> is the only JSON value.
\<close>

definition sample_platform :: "unit platform" where
  "sample_platform =
     \<lparr>URL_canParse = (\<lambda>s. CHR '':'' \<in> set s),
      JSON_parse = (\<lambda>s. if s = ''null'' then Inr () else Inl ''Unexpected token''),
      JSON_stringify = (\<lambda>v. ''null'')\<rparr>"

text \<open>
  The calls of the test suite on one URI: the record of \<^verbatim>\<open>createNDEFRecordWellKnownURI\<close>
  given to \<^verbatim>\<open>constructBytesFromRecordInfo\<close> as first and last record, and the message
  \<^verbatim>\<open>new NDEFMessage().add(createNDEFRecordWellKnownURI({payload: URI})).toBytes()\<close>.
\<close>

definition URI_record_bytes :: "'j platform \<Rightarrow> string \<Rightarrow> error + byte list" where
  "URI_record_bytes pf URI =
     (case createNDEFRecordWellKnownURI pf URI None of
        Inl e \<Rightarrow> Inl e
      | Inr r \<Rightarrow> constructBytesFromRecordInfo pf
          \<lparr>RecordInfo.record' = r, isBeginning = True, isEnd = True\<rparr>)"

definition URI_message_bytes :: "'j platform \<Rightarrow> string \<Rightarrow> error + byte list" where
  "URI_message_bytes pf URI =
     (case createNDEFRecordWellKnownURI pf URI None of
        Inl e \<Rightarrow> Inl e
      | Inr r \<Rightarrow> toBytes pf [r])"

text \<open>Encoding a list of records and decoding the bytes: \<^verbatim>\<open>parseNDEFMessage(await m.toBytes())\<close>.\<close>

definition decode_encode ::
  "'j platform \<Rightarrow> 'j NDEFRecord list \<Rightarrow> (error + 'j NDEFRecord list) option" where
  "decode_encode pf records =
     (case toBytes pf records of
        Inl e \<Rightarrow> Some (Inl e)
      | Inr bytes \<Rightarrow> parseNDEFMessage bytes)"

section \<open>The header byte: layout and decoding\<close>

lemma ToInt32_byte: "ToInt32 (Some (uint (b::byte))) = ucast b"
  by (simp add: ToInt32_def)

lemma and_pow_bit: "(w AND 2 ^ n \<noteq> 0) = bit w n" for w :: "32 word"
  by (simp add: and_exp_eq_0_iff_not_bit)

lemma flag_tests:
  fixes b :: byte
  shows "((ucast b :: 32 word) AND 0x80 \<noteq> 0) = bit b 7"
    and "((ucast b :: 32 word) AND 0x40 \<noteq> 0) = bit b 6"
    and "((ucast b :: 32 word) AND 0x20 \<noteq> 0) = bit b 5"
    and "((ucast b :: 32 word) AND 0x10 \<noteq> 0) = bit b 4"
    and "((ucast b :: 32 word) AND 0x08 \<noteq> 0) = bit b 3"
  using and_pow_bit [of "ucast b" 7] and_pow_bit [of "ucast b" 6] and_pow_bit [of "ucast b" 5]
    and_pow_bit [of "ucast b" 4] and_pow_bit [of "ucast b" 3]
  by (simp_all add: bit_ucast_iff)

lemma and7_lt: "unat ((b::byte) AND 7) < 8"
proof -
  have "b AND 7 \<le> 7" by (rule word_and_le1)
  then show ?thesis by (simp add: word_le_nat_alt)
qed

lemma tnf_bits: "unat ((ucast (b::byte) :: 32 word) AND 7) = unat (b AND 7)"
proof -
  have "(ucast b :: 32 word) AND 7 = ucast (b AND 7)"
    by (rule bit_word_eqI) (auto simp add: bit_simps dest: bit_imp_le_length)
  moreover have "unat (ucast (b AND 7) :: 32 word) = unat (b AND 7)"
  proof -
    have "unat (b AND 7) < 2 ^ 32" using and7_lt [of b] by simp
    then show ?thesis by (simp add: unsigned_ucast_eq take_bit_nat_eq_self)
  qed
  ultimately show ?thesis by simp
qed

lemma TNFCodeLookup_total: "n < 8 \<Longrightarrow> \<exists>t. TNFCodeLookup n = Inr t \<and> TNFLookup t = n"
  unfolding TNFCodeLookup_def by (auto simp: numeral_eq_Suc less_Suc_eq)

lemma TNFCodeLookup_TNFLookup: "TNFCodeLookup (TNFLookup t) = Inr t"
  by (cases t) (simp_all add: TNFCodeLookup_def)

lemma TNFLookup_inj: "TNFLookup s = TNFLookup t \<Longrightarrow> s = t"
  by (cases s; cases t) simp_all

lemma parse_header_byte:
  fixes b :: byte
  assumes "\<not> bit b 5"
  shows "\<exists>t. TNFLookup t = unat (b AND 7) \<and>
     parseNDEFRecordHeader (Some (uint b)) =
       Inr \<lparr>NDEFRecordHeader.tnf = t, messageBeginFlag = bit b 7, messageEndFlag = bit b 6,
            chunkFlag = False, shortRecordFlag = bit b 4, idLengthFlag = bit b 3\<rparr>"
proof -
  obtain t where t: "TNFCodeLookup (unat (b AND 7)) = Inr t" "TNFLookup t = unat (b AND 7)"
    using TNFCodeLookup_total [OF and7_lt [of b]] by blast
  show ?thesis
    using t assms
    by (simp add: parseNDEFRecordHeader_def ToInt32_byte flag_tests tnf_bits)
qed

lemma parse_header_chunked:
  fixes b :: byte
  assumes "bit b 5"
  shows "parseNDEFRecordHeader (Some (uint b)) = Inl Chunked_records_are_not_supported_yet"
  using assms by (simp add: parseNDEFRecordHeader_def ToInt32_byte flag_tests)

lemma of_nat_and7: "(of_nat n :: 32 word) AND 7 = of_nat (n mod 8)"
proof -
  have "(of_nat n :: 32 word) AND mask 3 = of_nat (take_bit 3 n)"
    by (simp only: flip: take_bit_eq_mask) (simp add: take_bit_of_nat)
  then show ?thesis by (simp add: take_bit_eq_mod mask_numeral)
qed

lemma construct_header_bits:
  assumes "\<not> isChunked info"
  shows "\<exists>h. constructHeaderByte info = [h] \<and> bit h 7 = HeaderBytesInfo.isBeginning info \<and>
     bit h 6 = HeaderBytesInfo.isEnd info \<and>
     \<not> bit h 5 \<and> bit h 4 = isShortRecord info \<and> bit h 3 = isIdPresent info \<and>
     unat (h AND 7) = tnfCode info mod 8"
proof (cases info)
  case (fields c mb me il sr cf)
  with assms have cf: "\<not> cf" by simp
  have "c mod 8 < 8" by simp
  then consider "c mod 8 = 0" | "c mod 8 = 1" | "c mod 8 = 2" | "c mod 8 = 3" | "c mod 8 = 4"
    | "c mod 8 = 5" | "c mod 8 = 6" | "c mod 8 = 7"
    by linarith
  then show ?thesis
    by cases (cases mb; cases me; cases il; cases sr;
        simp add: fields cf constructHeaderByte_def of_nat_and7)+
qed

lemma header_roundtrip:
  "\<exists>h. constructHeaderByte \<lparr>tnfCode = TNFLookup t, HeaderBytesInfo.isBeginning = mb,
          HeaderBytesInfo.isEnd = me, isIdPresent = il, isShortRecord = sr, isChunked = False\<rparr> = [h]
     \<and> parseNDEFRecordHeader (Some (uint h)) =
       Inr \<lparr>NDEFRecordHeader.tnf = t, messageBeginFlag = mb, messageEndFlag = me,
            chunkFlag = False, shortRecordFlag = sr, idLengthFlag = il\<rparr>"
proof -
  let ?info = "\<lparr>tnfCode = TNFLookup t, HeaderBytesInfo.isBeginning = mb,
          HeaderBytesInfo.isEnd = me, isIdPresent = il, isShortRecord = sr, isChunked = False\<rparr>"
  obtain h where h: "constructHeaderByte ?info = [h]" "bit h 7 = mb" "bit h 6 = me" "\<not> bit h 5"
    "bit h 4 = sr" "bit h 3 = il" "unat (h AND 7) = TNFLookup t mod 8"
    using construct_header_bits [of ?info] by auto
  have "TNFLookup t < 8" by (cases t) simp_all
  with h have c: "unat (h AND 7) = TNFLookup t" by simp
  obtain t' where t': "TNFLookup t' = unat (h AND 7)"
    "parseNDEFRecordHeader (Some (uint h)) =
       Inr \<lparr>NDEFRecordHeader.tnf = t', messageBeginFlag = bit h 7, messageEndFlag = bit h 6,
            chunkFlag = False, shortRecordFlag = bit h 4, idLengthFlag = bit h 3\<rparr>"
    using parse_header_byte [OF h(4)] by blast
  from t'(1) c have "t' = t" by (simp add: TNFLookup_inj)
  with h t' show ?thesis by simp
qed

text \<open>
  Claim C7. \<^verbatim>\<open>constructHeaderByte\<close> gives exactly one byte, with bit 7 the message-begin
  flag, bit 6 the message-end flag, bit 5 (the chunk flag) clear, bit 4 the short-record
  flag, bit 3 the id-length flag and bits 2 to 0 the TNF code. \<^verbatim>\<open>parseNDEFRecordHeader\<close> of
  a byte with bit 5 clear returns these six fields, so that decoding an encoded header
  gives the fields back; of a byte with bit 5 set it fails, chunked records being
  unsupported.
\<close>

theorem header_byte_layout:
  fixes info :: HeaderBytesInfo and b c :: byte
  shows "(\<not> isChunked info \<longrightarrow>
      (\<exists>h. constructHeaderByte info = [h] \<and> bit h 7 = HeaderBytesInfo.isBeginning info \<and>
         bit h 6 = HeaderBytesInfo.isEnd info \<and> \<not> bit h 5 \<and> bit h 4 = isShortRecord info \<and>
         bit h 3 = isIdPresent info \<and> unat (h AND 7) = tnfCode info mod 8))
    \<and> (\<not> bit b 5 \<longrightarrow>
      (\<exists>t. TNFLookup t = unat (b AND 7) \<and>
         parseNDEFRecordHeader (Some (uint b)) =
           Inr \<lparr>NDEFRecordHeader.tnf = t, messageBeginFlag = bit b 7, messageEndFlag = bit b 6,
                chunkFlag = False, shortRecordFlag = bit b 4, idLengthFlag = bit b 3\<rparr>))
    \<and> (bit c 5 \<longrightarrow>
      parseNDEFRecordHeader (Some (uint c)) = Inl Chunked_records_are_not_supported_yet)
    \<and> (\<exists>h. constructHeaderByte \<lparr>tnfCode = TNFLookup t, HeaderBytesInfo.isBeginning = mb,
          HeaderBytesInfo.isEnd = me, isIdPresent = il, isShortRecord = sr, isChunked = False\<rparr> = [h]
        \<and> parseNDEFRecordHeader (Some (uint h)) =
          Inr \<lparr>NDEFRecordHeader.tnf = t, messageBeginFlag = mb, messageEndFlag = me,
               chunkFlag = False, shortRecordFlag = sr, idLengthFlag = il\<rparr>)"
  using construct_header_bits [of info] parse_header_byte [of b] parse_header_chunked [of c]
    header_roundtrip [of t mb me il sr]
  by blast

theorem header_byte_layout_witness:
  "constructHeaderByte \<lparr>tnfCode = 1, HeaderBytesInfo.isBeginning = True,
       HeaderBytesInfo.isEnd = True, isIdPresent = False, isShortRecord = True, isChunked = False\<rparr> = [0xD1]
   \<and> \<not> bit (0xD1 :: byte) 5
   \<and> parseNDEFRecordHeader (Some (uint (0xD1 :: byte))) =
       Inr \<lparr>NDEFRecordHeader.tnf = well_known, messageBeginFlag = True, messageEndFlag = True,
            chunkFlag = False, shortRecordFlag = True, idLengthFlag = False\<rparr>
   \<and> bit (0x31 :: byte) 5
   \<and> parseNDEFRecordHeader (Some (uint (0x31 :: byte))) = Inl Chunked_records_are_not_supported_yet"
  using header_byte_layout [of "\<lparr>tnfCode = 1, HeaderBytesInfo.isBeginning = True,
       HeaderBytesInfo.isEnd = True, isIdPresent = False, isShortRecord = True, isChunked = False\<rparr>"
      "0xD1" "0x31" well_known True True False True]
  by (simp add: constructHeaderByte_def)

section \<open>The TLV envelope: when unwrapping fails\<close>

lemma js_slice_nat:
  "s \<le> e \<Longrightarrow> e \<le> length data \<Longrightarrow>
   js_slice data (Some (int s)) (Some (int e)) = take (e - s) (drop s data)"
  by (simp add: js_slice_def Let_def min_def nat_diff_distrib')

lemma unat_byte_lt: "unat (a::byte) < 256"
  using unsigned_less [of a, where 'a=nat] by simp

lemma be16: "unat (push_bit 8 (ucast (a::byte) :: 32 word) OR ucast (b::byte)) = 256 * unat a + unat b"
proof -
  have disj: "push_bit 8 (ucast a :: 32 word) OR ucast b = push_bit 8 (ucast a) + ucast b"
    by (rule disjunctive_add [symmetric]) (auto simp add: bit_simps dest: bit_imp_le_length)
  have "push_bit 8 (ucast a :: 32 word) + ucast b = of_nat (256 * unat a + unat b)"
    by (simp add: push_bit_eq_mult)
  moreover have "256 * unat a + unat b < 2 ^ 32"
    using unat_byte_lt [of a] unat_byte_lt [of b] by simp
  ultimately show ?thesis
    by (simp only: disj unat_of_nat) (simp add: take_bit_nat_eq_self)
qed


lemma js_slice_int:
  "0 \<le> s \<Longrightarrow> s \<le> e \<Longrightarrow> e \<le> int (length data) \<Longrightarrow>
   js_slice data (Some s) (Some e) = take (nat (e - s)) (drop (nat s) data)"
  by (simp add: js_slice_def Let_def min_def)

lemma byte_lt_FF: "((a::byte) < 0xFF) = (a \<noteq> 0xFF)"
  using unat_byte_lt [of a] by (auto simp add: word_less_nat_alt word_unat_eq_iff)

lemma validateAndStripTLV_short:
  assumes "3 \<le> length data" "data ! 0 = 0x03" "data ! (length data - 1) = 0xFE" "data ! 1 \<noteq> 0xFF"
  shows "validateAndStripTLV data =
    (if length data \<noteq> 2 + unat (data ! 1) + 1
     then Inl (TLV_expected_total_length (2 + unat (data ! 1) + 1) (length data))
     else if unat (data ! 1) = 0 then Inr []
     else if length data = 4 then Inl TLV_length_field_must_be_1_or_3_bytes
     else Inr (take (unat (data ! 1)) (drop 2 data)))"
proof -
  have sl: "js_slice data (Some (int 2)) (Some (int (length data) - 1)) = take (length data - 3) (drop 2 data)"
    using assms(1) by (subst js_slice_int) (simp_all add: nat_diff_distrib')
  have v: "validateAndStripTLV data =
    (if length data \<noteq> 2 + unat (data ! 1) + 1
     then Inl (TLV_expected_total_length (2 + unat (data ! 1) + 1) (length data))
     else if unat (data ! 1) = 0 then Inr []
     else if length data = 4 then Inl TLV_length_field_must_be_1_or_3_bytes
     else Inr (js_slice data (Some (int 2)) (Some (int (length data) - 1))))"
    using assms by (simp add: validateAndStripTLV_def byte_lt_FF Let_def)
  show ?thesis
    unfolding v sl by auto
qed

lemma validateAndStripTLV_long:
  assumes "5 \<le> length data" "data ! 0 = 0x03" "data ! (length data - 1) = 0xFE" "data ! 1 = 0xFF"
  shows "validateAndStripTLV data =
    (if length data \<noteq> 4 + (256 * unat (data ! 2) + unat (data ! 3)) + 1
     then Inl (TLV_expected_total_length (4 + (256 * unat (data ! 2) + unat (data ! 3)) + 1) (length data))
     else if 256 * unat (data ! 2) + unat (data ! 3) = 0 then Inr []
     else Inr (take (256 * unat (data ! 2) + unat (data ! 3)) (drop 4 data)))"
proof -
  have sl: "js_slice data (Some (int 4)) (Some (int (length data) - 1)) = take (length data - 5) (drop 4 data)"
    using assms(1) by (subst js_slice_int) (simp_all add: nat_diff_distrib')
  have v: "validateAndStripTLV data =
    (if length data \<noteq> 4 + (256 * unat (data ! 2) + unat (data ! 3)) + 1
     then Inl (TLV_expected_total_length (4 + (256 * unat (data ! 2) + unat (data ! 3)) + 1) (length data))
     else if 256 * unat (data ! 2) + unat (data ! 3) = 0 then Inr []
     else Inr (js_slice data (Some (int 4)) (Some (int (length data) - 1))))"
    using assms by (simp add: validateAndStripTLV_def be16 Let_def)
  show ?thesis
    unfolding v sl by auto
qed

text \<open>
  Claim C4, as amended. \<^verbatim>\<open>validateAndStripTLV\<close> fails exactly when the buffer has fewer
  than 3 bytes, or its first byte is not 0x03, or its last byte is not 0xFE, or the length
  byte is 0xFF and the buffer has fewer than 5 bytes, or the length of the buffer is not
  header size + declared length + 1, or the buffer has exactly 4 bytes and a declared
  length other than 0 (which is then 1). In every other case it returns the declared
  number of bytes after the header, which may be none.
\<close>

theorem validateAndStripTLV_cases:
  fixes data :: "byte list"
  shows
  "let long = (data ! 1 = 0xFF);
       headerSize = (if long then 4 else 2);
       declared = (if long then 256 * unat (data ! 2) + unat (data ! 3) else unat (data ! 1));
       fails = (length data < 3 \<or> data ! 0 \<noteq> 0x03 \<or> data ! (length data - 1) \<noteq> 0xFE
                \<or> (long \<and> length data < 5) \<or> length data \<noteq> headerSize + declared + 1
                \<or> (length data = 4 \<and> declared \<noteq> 0))
   in (isl (validateAndStripTLV data) = fails)
      \<and> (\<not> fails \<longrightarrow> validateAndStripTLV data = Inr (take declared (drop headerSize data)))"
proof (cases "length data < 3 \<or> data ! 0 \<noteq> 0x03 \<or> data ! (length data - 1) \<noteq> 0xFE")
  case True
  then have "isl (validateAndStripTLV data)"
    by (cases "length data < 3"; cases "data ! 0 \<noteq> 0x03")
      (simp_all add: validateAndStripTLV_def)
  with True show ?thesis unfolding Let_def by blast
next
  case False
  then have b: "3 \<le> length data" "data ! 0 = 0x03" "data ! (length data - 1) = 0xFE" by auto
  show ?thesis
  proof (cases "data ! 1 = 0xFF")
    case long: True
    show ?thesis
    proof (cases "length data < 5")
      case True
      with b long have "isl (validateAndStripTLV data)" by (simp add: validateAndStripTLV_def)
      with True long show ?thesis by (simp add: Let_def)
    next
      case False
      then have "5 \<le> length data" by simp
      from validateAndStripTLV_long [OF this b(2,3) long] b long False
      show ?thesis by (simp add: Let_def)
    qed
  next
    case short: False
    from validateAndStripTLV_short [OF b short] b short
    show ?thesis by (simp add: Let_def)
  qed
qed

text \<open>The first vector of the test suite, through the theorem.\<close>

theorem validateAndStripTLV_cases_witness:
  "validateAndStripTLV [0x03, 0x05, 0x01, 0x02, 0x03, 0x04, 0x05, 0xFE] = Inr [0x01, 0x02, 0x03, 0x04, 0x05]"
  using validateAndStripTLV_cases [of "[0x03, 0x05, 0x01, 0x02, 0x03, 0x04, 0x05, 0xFE]"]
  by (simp add: Let_def)

text \<open>
  Claim C4 as the specification states it has the 4-byte buffer 03 01 v FE return the
  one byte v. The guard on buffers of length 4 rejects it.
\<close>

theorem validateAndStripTLV_four_bytes_counterexample:
  "validateAndStripTLV [0x03, 0x01, 0x2A, 0xFE] = Inl TLV_length_field_must_be_1_or_3_bytes
   \<and> validateAndStripTLV [0x03, 0x01, 0x2A, 0xFE] \<noteq> Inr [0x2A]"
  by (simp add: validateAndStripTLV_def)

section \<open>The URI record of the NDEF specification's example\<close>

text \<open>
  Claim C6, as amended. For the URI \<^verbatim>\<open>http://www.nfc.com\<close>, the record alone, encoded by
  \<^verbatim>\<open>constructBytesFromRecordInfo\<close> as first and last record, is exactly
  D1 01 08 55 01 6E 66 63 2E 63 6F 6D; the message of this one record, encoded by
  \<^verbatim>\<open>NDEFMessage.toBytes\<close>, is these twelve bytes inside the TLV envelope:
  03 0C before them and FE after.
\<close>

theorem URI_nfc_com_bytes:
  assumes "URL_canParse pf ''http://www.nfc.com''"
  shows "URI_record_bytes pf ''http://www.nfc.com'' =
           Inr [0xD1, 0x01, 0x08, 0x55, 0x01, 0x6E, 0x66, 0x63, 0x2E, 0x63, 0x6F, 0x6D]
       \<and> URI_message_bytes pf ''http://www.nfc.com'' =
           Inr [0x03, 0x0C, 0xD1, 0x01, 0x08, 0x55, 0x01, 0x6E, 0x66, 0x63, 0x2E, 0x63, 0x6F, 0x6D, 0xFE]"
  using assms
  by (simp add: URI_record_bytes_def URI_message_bytes_def createNDEFRecordWellKnownURI_def
      toBytes_def constructBytes_def getWellKnownURIPrefixMapping_def URI_prefix_cases_def
      constructBytesFromRecordInfo_def constructHeaderByte_def prepareIdForRecord_def
      TextEncoder_encode_def Let_def)

theorem URI_nfc_com_bytes_witness:
  "URL_canParse sample_platform ''http://www.nfc.com''
   \<and> URI_record_bytes sample_platform ''http://www.nfc.com'' =
         Inr [0xD1, 0x01, 0x08, 0x55, 0x01, 0x6E, 0x66, 0x63, 0x2E, 0x63, 0x6F, 0x6D]
   \<and> URI_message_bytes sample_platform ''http://www.nfc.com'' =
         Inr [0x03, 0x0C, 0xD1, 0x01, 0x08, 0x55, 0x01, 0x6E, 0x66, 0x63, 0x2E, 0x63, 0x6F, 0x6D, 0xFE]"
proof -
  have h: "URL_canParse sample_platform ''http://www.nfc.com''"
    by (simp add: sample_platform_def)
  show ?thesis using h URI_nfc_com_bytes [OF h] by simp
qed

text \<open>
  Claim C6 as the specification states it has the message encode to the twelve bytes of
  the record. \<^verbatim>\<open>toBytes\<close> returns fifteen bytes.
\<close>

theorem URI_nfc_com_message_counterexample:
  "URI_message_bytes sample_platform ''http://www.nfc.com'' \<noteq>
     Inr [0xD1, 0x01, 0x08, 0x55, 0x01, 0x6E, 0x66, 0x63, 0x2E, 0x63, 0x6F, 0x6D]"
  by (simp add: URI_message_bytes_def createNDEFRecordWellKnownURI_def
      toBytes_def constructBytes_def getWellKnownURIPrefixMapping_def URI_prefix_cases_def
      constructBytesFromRecordInfo_def constructHeaderByte_def prepareIdForRecord_def
      TextEncoder_encode_def Let_def sample_platform_def)

section \<open>URI prefixes: the first matching case, not the longest\<close>

text \<open>
  Claim C3 fails on the code. A valid URI that starts with \<^verbatim>\<open>urn:epc:id:\<close> is encoded with
  the code 0x13 of \<^verbatim>\<open>urn:\<close>, whose case comes first in the \<^verbatim>\<open>switch\<close>, and not with 0x1E;
  \<^verbatim>\<open>epc:id:\<close> stays in the suffix.
\<close>

theorem urn_epc_id_is_encoded_as_urn:
  assumes "URL_canParse pf (''urn:epc:id:'' @ rest)"
  shows "getWellKnownURIPrefixMapping pf (''urn:epc:id:'' @ rest) =
     Inr \<lparr>URIIdentifierPrefix = 0x13, URISuffix = ''epc:id:'' @ rest\<rparr>"
  using assms
  by (simp add: getWellKnownURIPrefixMapping_def URI_prefix_cases_def)

theorem urn_epc_id_is_encoded_as_urn_witness:
  "URL_canParse sample_platform ''urn:epc:id:sgtin:0614141.107346.2017''
   \<and> getWellKnownURIPrefixMapping sample_platform ''urn:epc:id:sgtin:0614141.107346.2017'' =
     Inr \<lparr>URIIdentifierPrefix = 0x13, URISuffix = ''epc:id:sgtin:0614141.107346.2017''\<rparr>"
proof -
  have h: "URL_canParse sample_platform (''urn:epc:id:'' @ ''sgtin:0614141.107346.2017'')"
    by (simp add: sample_platform_def)
  show ?thesis using h urn_epc_id_is_encoded_as_urn [OF h] by simp
qed

section \<open>The length field of the TLV envelope\<close>

text \<open>
  Claim C2 holds up to 254 bytes and fails above. When the loop of \<^verbatim>\<open>constructBytes\<close> has
  found one begin and one end flag: up to 254 bytes of records, the result is 03, the
  length in one byte, the records and FE; above 254 bytes \<^verbatim>\<open>constructBytes\<close> throws, and
  returns no bytes at all, neither FF nor a two-byte length.
\<close>

theorem constructBytes_length_field:
  assumes "infos \<noteq> []"
    and "constructBytes_loop pf infos
             \<lparr>result = [], hasBeginning = False, hasEnd = False,
              hasMultipleBeginning = False, hasMultipleEnd = False\<rparr> = Inr st"
    and "hasBeginning st" "hasEnd st" "\<not> hasMultipleBeginning st" "\<not> hasMultipleEnd st"
  shows "constructBytes pf infos =
     (if length (result st) \<le> 254
      then Inr ([0x03, of_nat (length (result st))] @ result st @ [0xFE])
      else Inl Spread_of_undefined)"
  using assms
  by (simp add: constructBytes_def Let_def)

text \<open>A PNG record of 243 payload bytes takes 255 bytes.\<close>

theorem constructBytes_length_field_witness:
  "constructBytes sample_platform
     [\<lparr>RecordInfo.record' = createNDEFRecordMediaBinary ''image/png'' (replicate 243 0xAA) None,
       isBeginning = True, isEnd = True\<rparr>] = Inl Spread_of_undefined"
proof -
  let ?info = "\<lparr>RecordInfo.record' = createNDEFRecordMediaBinary ''image/png'' (replicate 243 0xAA) None,
       isBeginning = True, isEnd = True\<rparr> :: unit RecordInfo"
  let ?bytes = "[0xD2, 0x09, 0xF3] @ TextEncoder_encode ''image/png'' @ replicate 243 (0xAA :: byte)"
  let ?st = "\<lparr>result = ?bytes, hasBeginning = True, hasEnd = True,
              hasMultipleBeginning = False, hasMultipleEnd = False\<rparr>"
  have l: "constructBytes_loop sample_platform [?info]
             \<lparr>result = [], hasBeginning = False, hasEnd = False,
              hasMultipleBeginning = False, hasMultipleEnd = False\<rparr> = Inr ?st"
    by (simp add: constructBytesFromRecordInfo_def createNDEFRecordMediaBinary_def
        prepareIdForRecord_def TextEncoder_encode_def constructHeaderByte_def Let_def)
  show ?thesis
    using constructBytes_length_field [OF _ l] by (simp add: TextEncoder_encode_def)
qed

section \<open>Encoding and decoding a message\<close>

text \<open>
  Claim C1 fails on the code for every message whose records take more than 254 bytes:
  encoding throws, so there are no bytes to decode. Here the message has one
  \<^verbatim>\<open>text/plain\<close> record with a payload of 242 characters, which takes 255 bytes.
\<close>

theorem decode_encode_fails_above_254_bytes:
  "decode_encode sample_platform [createNDEFRecordMediaTextPlain (replicate 242 CHR ''a'') None]
     = Some (Inl Spread_of_undefined)"
  by (simp add: decode_encode_def toBytes_def constructBytes_def constructBytesFromRecordInfo_def
      createNDEFRecordMediaTextPlain_def createNDEFRecordMediaText_def
      prepareIdForRecord_def TextEncoder_encode_def constructHeaderByte_def Let_def)

section \<open>The mutators of a message\<close>

lemma update_records_eq:
  "messages h this = Some a \<Longrightarrow> arrays h a = Some rs \<Longrightarrow>
   update_records h this f = h\<lparr>arrays := (arrays h)(a \<mapsto> f rs)\<rparr>"
  by (simp add: update_records_def)

lemma heap_upd_same:
  "arrays h a = Some rs \<Longrightarrow> h\<lparr>arrays := (arrays h)(a \<mapsto> rs)\<rparr> = h"
  by (simp add: map_upd_triv)

text \<open>
  Claim C10. Called on a message whose \<^verbatim>\<open>records\<close> field points to the array \<open>a\<close> holding
  \<open>rs\<close>, each of \<^verbatim>\<open>add\<close>, \<^verbatim>\<open>addHead\<close>, \<^verbatim>\<open>addTail\<close>, \<^verbatim>\<open>remove\<close>, \<^verbatim>\<open>removeHead\<close> and \<^verbatim>\<open>removeTail\<close>
  returns the reference it was called on and changes nothing in the heap but the
  content of \<open>a\<close>: no message and no array is created. After \<^verbatim>\<open>addTail\<close> every message
  that points to \<open>a\<close>, the receiver first, has the records \<open>rs\<close> followed by the new one;
  \<^verbatim>\<open>removeHead\<close> and \<^verbatim>\<open>removeTail\<close> leave an empty message as it is.
\<close>

theorem mutators_change_the_message_in_place:
  assumes "messages h this = Some a" and "arrays h a = Some rs"
  shows "addTail h this r = (h\<lparr>arrays := (arrays h)(a \<mapsto> rs @ [r])\<rparr>, this)
       \<and> add h this r = (h\<lparr>arrays := (arrays h)(a \<mapsto> rs @ [r])\<rparr>, this)
       \<and> addHead h this r = (h\<lparr>arrays := (arrays h)(a \<mapsto> r # rs)\<rparr>, this)
       \<and> removeHead h this = (h\<lparr>arrays := (arrays h)(a \<mapsto> drop 1 rs)\<rparr>, this)
       \<and> removeTail h this = (h\<lparr>arrays := (arrays h)(a \<mapsto> butlast rs)\<rparr>, this)
       \<and> remove h this = (h\<lparr>arrays := (arrays h)(a \<mapsto> butlast rs)\<rparr>, this)
       \<and> (\<forall>other. messages h other = Some a \<longrightarrow>
             records_of (fst (addTail h this r)) other = Some (rs @ [r]))
       \<and> (rs = [] \<longrightarrow> removeHead h this = (h, this) \<and> removeTail h this = (h, this))"
  using assms
  by (auto simp add: addTail_def add_def addHead_def removeHead_def removeTail_def remove_def
      update_records_eq records_of_def heap_upd_same)


theorem mutators_change_the_message_in_place_witness:
  "addTail \<lparr>arrays = [7 \<mapsto> []], messages = [1 \<mapsto> 7]\<rparr> 1
       (createNDEFRecordMediaTextPlain ''Description'' None :: unit NDEFRecord)
     = (\<lparr>arrays = [7 \<mapsto> [createNDEFRecordMediaTextPlain ''Description'' None]],
         messages = [1 \<mapsto> 7]\<rparr>, 1)
   \<and> removeHead \<lparr>arrays = [7 \<mapsto> ([] :: unit NDEFRecord list)], messages = [1 \<mapsto> 7]\<rparr> 1
     = (\<lparr>arrays = [7 \<mapsto> []], messages = [1 \<mapsto> 7]\<rparr>, 1)"
  using mutators_change_the_message_in_place
    [of "\<lparr>arrays = [7 \<mapsto> []], messages = [1 \<mapsto> 7]\<rparr>" 1 7 "[]"
        "createNDEFRecordMediaTextPlain ''Description'' None :: unit NDEFRecord"]
  by simp

section \<open>The decoding loop\<close>

text \<open>Text of ASCII characters is decoded to itself.\<close>

lemma utf8_decoder_ascii:
  assumes "\<forall>b\<in>set bs. b \<le> 0x7F"
  shows "utf8_decoder 0 [] 0x80 0xBF bs = bs"
  using assms by (induction bs) simp_all

lemma TextDecoder_decode_ascii:
  assumes "\<forall>b\<in>set bs. b \<le> 0x7F"
  shows "TextDecoder_decode bs = map (\<lambda>b. char_of (unat b)) bs"
proof -
  have "take 3 bs \<noteq> [0xEF, 0xBB, 0xBF]"
  proof
    assume "take 3 bs = [0xEF, 0xBB, 0xBF]"
    then have "(0xEF :: byte) \<in> set (take 3 bs)" by simp
    then have "(0xEF :: byte) \<in> set bs" by (rule in_set_takeD)
    with assms have "(0xEF :: byte) \<le> 0x7F" by blast
    then show False by simp
  qed
  then show ?thesis by (simp add: TextDecoder_decode_def utf8_decoder_ascii [OF assms])
qed

lemma TextDecoder_decode_encode:
  assumes "\<forall>c\<in>set s. of_char c \<le> (0x7F :: nat)"
  shows "TextDecoder_decode (TextEncoder_encode s) = s"
proof -
  have le: "(of_nat (of_char c) :: byte) \<le> 0x7F" if "of_char c \<le> (0x7F :: nat)" for c
    using that by (simp add: word_le_nat_alt unat_of_nat)
  have "\<forall>b\<in>set (TextEncoder_encode s). b \<le> 0x7F"
    using assms le by (auto simp add: TextEncoder_encode_def)
  then have "TextDecoder_decode (TextEncoder_encode s) =
      map (\<lambda>b. char_of (unat b)) (TextEncoder_encode s)"
    by (rule TextDecoder_decode_ascii)
  also have "\<dots> = s"
    by (induction s) (simp_all add: TextEncoder_encode_def unat_of_nat)
  finally show ?thesis .
qed

lemma length_TextEncoder_encode [simp]: "length (TextEncoder_encode s) = length s"
  by (simp add: TextEncoder_encode_def)


lemma loop_unfold_round:
  assumes "js_lt offset (js_length data)" "parseNDEFRecord data offset = Inr recordResult"
    "\<not> isMessageEnd recordResult"
  shows "parseNDEFMessage_loop data offset records =
     parseNDEFMessage_loop data (nextOffset recordResult)
       (records @ [ParsedNDEFRecordResult.record' recordResult])"
  by (subst parseNDEFMessage_loop.simps) (simp add: assms)

lemma loop_unfold_end:
  assumes "js_lt offset (js_length data)" "parseNDEFRecord data offset = Inr recordResult"
    "isMessageEnd recordResult"
  shows "parseNDEFMessage_loop data offset records =
     Some (Inr (records @ [ParsedNDEFRecordResult.record' recordResult]))"
  by (subst parseNDEFMessage_loop.simps) (simp add: assms)

lemma loop_unfold_error:
  fixes records :: "'j NDEFRecord list"
  assumes "js_lt offset (js_length data)"
    "(parseNDEFRecord data offset :: error + 'j ParsedNDEFRecordResult) = Inl e"
  shows "parseNDEFMessage_loop data offset records = Some (Inl e)"
  by (subst parseNDEFMessage_loop.simps) (simp add: assms)

lemma loop_unfold_exit:
  assumes "\<not> js_lt offset (js_length data)"
  shows "parseNDEFMessage_loop data offset records = Some (Inr records)"
  by (subst parseNDEFMessage_loop.simps) (simp add: assms)

lemma loop_reaches_result:
  assumes "loop_reaches data offset records"
  shows "parseNDEFMessage_loop data (Some 0) [] = parseNDEFMessage_loop data offset records"
  using assms
proof (induction rule: loop_reaches.induct)
  case start
  show ?case by simp
next
  case (round offset records recordResult)
  then show ?case by (simp add: loop_unfold_round)
qed

lemma loop_reaches_nonempty:
  assumes "loop_reaches data offset records" "js_lt offset (js_length data)"
  shows "data \<noteq> []"
  using assms
proof (induction rule: loop_reaches.induct)
  case start
  then show ?case by (auto simp add: js_lt_def js_length_def)
next
  case (round offset records recordResult)
  then show ?case by simp
qed

lemma validate_nonempty:
  assumes "validateAndStripTLV d = Inr data"
  shows "d \<noteq> []"
  using assms by (auto simp add: validateAndStripTLV_def)

lemma parseNDEFMessage_loop_eq:
  assumes "validateAndStripTLV (stripLeadingTrailingZeros buffer) = Inr data" "data \<noteq> []"
  shows "parseNDEFMessage buffer = parseNDEFMessage_loop data (Some 0) []"
  using assms validate_nonempty [OF assms(1)]
  by (simp add: parseNDEFMessage_def Let_def)

lemma reconstruct_bad_code:
  assumes "0x23 < c"
  shows "reconstructURIFromPrefix c s = Inl (Invalid_prefix_code c)"
proof -
  have "map_of prefixMappings c = None"
    using assms by (simp add: prefixMappings_def)
  then show ?thesis by (simp add: reconstructURIFromPrefix_def)
qed

lemma uri_from_bytes_bad:
  assumes "raw = [] \<or> 0x23 < unat (raw ! 0)"
  shows "createNDEFRecordWellKnownURIFromBytes raw i =
    Inl (if raw = [] then URI_record_payload_cannot_be_empty
         else Invalid_prefix_code (unat (raw ! 0)))"
  using assms
  by (auto simp add: createNDEFRecordWellKnownURIFromBytes_def Let_def reconstruct_bad_code)

text \<open>
  Claim C9. Let the buffer unwrap to the TLV value \<open>data\<close>, and let the loop of
  \<^verbatim>\<open>parseNDEFMessage\<close> arrive at an offset where the fields of a record can be read, with
  TNF well-known, type \<^verbatim>\<open>U\<close> and a payload that is empty or starts with a byte above 0x23.
  Then \<^verbatim>\<open>parseNDEFMessage\<close> itself fails, with the error of the URI reconstruction, and
  returns no message: the failure is not left to the payload accessor.
\<close>

theorem URI_payload_is_rebuilt_while_parsing:
  fixes records :: "'j NDEFRecord list"
  assumes tlv: "validateAndStripTLV (stripLeadingTrailingZeros buffer) = Inr data"
    and reach: "loop_reaches data offset records"
    and lt: "js_lt offset (js_length data)"
    and f: "readRecordFields data offset = Inr f"
    and wk: "NDEFRecordHeader.tnf (header f) = well_known"
    and ty: "TextDecoder_decode (rawTypeField f) = ''U''"
    and bad: "rawPayloadField f = [] \<or> 0x23 < unat (rawPayloadField f ! 0)"
  shows "(parseNDEFMessage buffer :: (error + 'j NDEFRecord list) option) =
    Some (Inl (if rawPayloadField f = [] then URI_record_payload_cannot_be_empty
               else Invalid_prefix_code (unat (rawPayloadField f ! 0))))"
proof -
  define e where "e = (if rawPayloadField f = [] then URI_record_payload_cannot_be_empty
               else Invalid_prefix_code (unat (rawPayloadField f ! 0)))"
  have c: "(createNDEFRecordWellKnownURIFromBytes (rawPayloadField f) i :: error + 'j NDEFRecord) = Inl e" for i
    unfolding e_def by (rule uri_from_bytes_bad [OF bad])
  have "(parseNDEFRecord data offset :: error + 'j ParsedNDEFRecordResult) = Inl e"
    using f wk ty
    by (simp add: parseNDEFRecord_def createNDEFRecordFromRawData_def createWellKnownRecord_def c)
  then have "parseNDEFMessage_loop data offset records = Some (Inl e)"
    using lt by (rule loop_unfold_error [rotated])
  then have "parseNDEFMessage_loop data (Some 0) ([] :: 'j NDEFRecord list) = Some (Inl e)"
    using loop_reaches_result [OF reach] by simp
  moreover have ne: "data \<noteq> []" using loop_reaches_nonempty [OF reach lt] .
  have "(parseNDEFMessage buffer :: (error + 'j NDEFRecord list) option) =
      parseNDEFMessage_loop data (Some 0) []"
    by (rule parseNDEFMessage_loop_eq [OF tlv ne])
  ultimately show ?thesis by (simp add: e_def)
qed


text \<open>
  A message of two records, a \<^verbatim>\<open>text/plain\<close> record and a URI record with prefix code 0x24.
\<close>

theorem URI_payload_is_rebuilt_while_parsing_witness:
  "(parseNDEFMessage
      ([0x03, 0x15,
        0x92, 0x0A, 0x02, 0x74, 0x65, 0x78, 0x74, 0x2F, 0x70, 0x6C, 0x61, 0x69, 0x6E, 0x48, 0x69,
        0x51, 0x01, 0x02, 0x55, 0x24, 0x41,
        0xFE]) :: (error + unit NDEFRecord list) option)
   = Some (Inl (Invalid_prefix_code 0x24))"
proof -
  let ?data = "[0x92, 0x0A, 0x02, 0x74, 0x65, 0x78, 0x74, 0x2F, 0x70, 0x6C, 0x61, 0x69, 0x6E, 0x48, 0x69,
        0x51, 0x01, 0x02, 0x55, 0x24, 0x41] :: byte list"
  let ?buffer = "[0x03, 0x15] @ ?data @ [0xFE]"
  let ?f = "\<lparr>header = \<lparr>NDEFRecordHeader.tnf = well_known, messageBeginFlag = False,
                      messageEndFlag = True, chunkFlag = False, shortRecordFlag = True,
                      idLengthFlag = False\<rparr>,
          rawTypeField = [0x55], rawIdField = None, rawPayloadField = [0x24, 0x41],
          offsetAfter = Some 21\<rparr>"
  let ?first = "\<lparr>ParsedNDEFRecordResult.record' =
            createNDEFRecordMediaTextFromBytes ''text/plain'' [0x48, 0x69] None,
          nextOffset = Some 15, isMessageEnd = False\<rparr> :: unit ParsedNDEFRecordResult"
  have tlv: "validateAndStripTLV (stripLeadingTrailingZeros ?buffer) = Inr ?data"
    by (simp add: stripLeadingTrailingZeros_def validateAndStripTLV_def js_slice_def)
  have first: "parseNDEFRecord ?data (Some 0) = Inr ?first"
    by (simp add: parseNDEFRecord_def createNDEFRecordFromRawData_def createMediaRecord_def
      TextDecoder_decode_def REPLACEMENT_CHARACTER_def char_of_eq_iff
      readRecordFields_def parseNDEFRecordHeader_def js_ge_def js_gt_def js_add_def
      js_index_def js_length_def js_slice_def ToInt32_def TNFCodeLookup_def Let_def)
  have "loop_reaches ?data (nextOffset ?first) ([] @ [ParsedNDEFRecordResult.record' ?first])"
    by (rule loop_reaches.round [OF loop_reaches.start _ first])
      (simp_all add: js_lt_def js_length_def)
  then have reach: "loop_reaches ?data (Some 15) [createNDEFRecordMediaTextFromBytes ''text/plain'' [0x48, 0x69] None :: unit NDEFRecord]"
    by simp
  have lt: "js_lt (Some 15) (js_length ?data)"
    by (simp add: js_lt_def js_length_def)
  have f: "readRecordFields ?data (Some 15) = Inr ?f"
    by (simp add: readRecordFields_def parseNDEFRecordHeader_def js_ge_def js_gt_def js_add_def
      js_index_def js_length_def js_slice_def ToInt32_def TNFCodeLookup_def Let_def)
  have wk: "NDEFRecordHeader.tnf (header ?f) = well_known" by simp
  have ty: "TextDecoder_decode (rawTypeField ?f) = ''U''"
    by (simp add: TextDecoder_decode_def REPLACEMENT_CHARACTER_def char_of_eq_iff)
  have bad: "rawPayloadField ?f = [] \<or> 0x23 < unat (rawPayloadField ?f ! 0)" by simp
  show ?thesis
    using URI_payload_is_rebuilt_while_parsing [OF tlv reach lt f wk ty bad] by simp
qed

section \<open>JSON payloads\<close>

lemma json_record_accessors:
  assumes "JSON_parse pf (TextDecoder_decode raw) = Inl m"
  shows "payload (createNDEFRecordMediaApplicationJsonFromBytes raw i) pf = Inl (JSON_SyntaxError m)"
    and "safePayload (createNDEFRecordMediaApplicationJsonFromBytes raw i) pf = Failure m"
    and "rawPayload (createNDEFRecordMediaApplicationJsonFromBytes raw i) pf = raw"
  using assms by (simp_all add: createNDEFRecordMediaApplicationJsonFromBytes_def)

lemma createNDEFRecordFromRawData_json:
  assumes "TextDecoder_decode ty = ''application/json''"
  shows "createNDEFRecordFromRawData media ty raw rid =
     Inr (createNDEFRecordMediaApplicationJsonFromBytes raw (map_option TextDecoder_decode rid))"
  using assms by (simp add: createNDEFRecordFromRawData_def createMediaRecord_def)

lemma parseNDEFRecord_of_fields:
  assumes "readRecordFields data offset = Inr f" "record_of_fields f = Inr r"
  shows "parseNDEFRecord data offset =
    Inr \<lparr>ParsedNDEFRecordResult.record' = r, nextOffset = offsetAfter f,
         isMessageEnd = messageEndFlag (header f)\<rparr>"
  using assms by (simp add: parseNDEFRecord_def record_of_fields_def)

text \<open>
  On a value with the structure of a message, all of whose records can be built, the loop
  returns these records.
\<close>

lemma loop_of_fields:
  fixes acc :: "'j NDEFRecord list"
  assumes "reads_fields data offset fs"
    and "list_all2 (\<lambda>g r. record_of_fields g = Inr r) fs rs"
  shows "parseNDEFMessage_loop data offset acc = Some (Inr (acc @ rs))"
  using assms
proof (induction arbitrary: rs acc rule: reads_fields.induct)
  case (last_record offset f)
  from last_record.prems obtain r where rs: "rs = [r]" and r: "record_of_fields f = Inr r"
    by (auto simp add: list_all2_Cons1)
  note rec = parseNDEFRecord_of_fields [OF last_record.hyps(2) r]
  show ?case
  proof (cases "messageEndFlag (header f)")
    case True
    then show ?thesis
      using loop_unfold_end [OF last_record.hyps(1) rec, of acc] by (simp add: rs)
  next
    case False
    with last_record.hyps(3) have "\<not> js_lt (offsetAfter f) (js_length data)" by simp
    then have "parseNDEFMessage_loop data (offsetAfter f) (acc @ [r]) = Some (Inr (acc @ [r]))"
      by (rule loop_unfold_exit)
    with False show ?thesis
      using loop_unfold_round [OF last_record.hyps(1) rec, of acc] by (simp add: rs)
  qed
next
  case (more_records offset f fs)
  from more_records.prems obtain r rs' where rs: "rs = r # rs'"
    and r: "record_of_fields f = Inr r"
    and rs': "list_all2 (\<lambda>g r. record_of_fields g = Inr r) fs rs'"
    by (auto simp add: list_all2_Cons1)
  note rec = parseNDEFRecord_of_fields [OF more_records.hyps(2) r]
  have "parseNDEFMessage_loop data offset acc =
      parseNDEFMessage_loop data (offsetAfter f) (acc @ [r])"
    using loop_unfold_round [OF more_records.hyps(1) rec, of acc] more_records.hyps(3) by simp
  also have "\<dots> = Some (Inr ((acc @ [r]) @ rs'))"
    by (rule more_records.IH [OF rs'])
  finally show ?case by (simp add: rs)
qed

lemma reads_fields_nonempty:
  assumes "reads_fields data (Some 0) fs"
  shows "data \<noteq> []"
  using assms by (cases rule: reads_fields.cases) (auto simp add: js_lt_def js_length_def)

text \<open>
  Claim C5, as amended. Let the buffer unwrap to a TLV value with the structure of a message:
  the fields of its records can be read one after the other, up to the message-end flag or
  the end of the value. Let one of the records, anywhere among them, have TNF media, type
  \<^verbatim>\<open>application/json\<close> and a payload whose text \<^verbatim>\<open>JSON.parse\<close> rejects with message \<open>m\<close>, and
  let the other records be such that \<^verbatim>\<open>createNDEFRecordFromRawData\<close> builds them. Then
  \<^verbatim>\<open>parseNDEFMessage\<close> succeeds and returns the message with the record \<open>r\<close> of that payload
  in its place. The failure shows when an accessor of \<open>r\<close> is called: \<^verbatim>\<open>payload\<close> fails, with
  the \<^verbatim>\<open>SyntaxError\<close> of \<^verbatim>\<open>JSON.parse\<close> itself, and \<^verbatim>\<open>safePayload\<close> returns the failure object
  with \<open>m\<close> as its error string.
\<close>

theorem JSON_payload_is_parsed_on_access:
  fixes pf :: "'j platform" and before after :: "'j NDEFRecord list"
  assumes tlv: "validateAndStripTLV (stripLeadingTrailingZeros buffer) = Inr data"
    and fields: "reads_fields data (Some 0) (fs1 @ [f] @ fs2)"
    and before: "list_all2 (\<lambda>g r. record_of_fields g = Inr r) fs1 before"
    and after: "list_all2 (\<lambda>g r. record_of_fields g = Inr r) fs2 after"
    and md: "NDEFRecordHeader.tnf (header f) = media"
    and ty: "TextDecoder_decode (rawTypeField f) = ''application/json''"
    and bad: "JSON_parse pf (TextDecoder_decode (rawPayloadField f)) = Inl m"
    and r: "r = createNDEFRecordMediaApplicationJsonFromBytes (rawPayloadField f)
                  (map_option TextDecoder_decode (rawIdField f))"
  shows "parseNDEFMessage buffer = Some (Inr (before @ [r] @ after))
       \<and> payload r pf = Inl (JSON_SyntaxError m)
       \<and> safePayload r pf = Failure m
       \<and> rawPayload r pf = rawPayloadField f"
proof -
  have "(record_of_fields f :: error + 'j NDEFRecord) = Inr r"
    using md r by (simp add: record_of_fields_def createNDEFRecordFromRawData_json [OF ty])
  then have "list_all2 (\<lambda>g r. record_of_fields g = Inr r) [f] [r]"
    by simp
  with before after
  have "list_all2 (\<lambda>g r. record_of_fields g = Inr r) (fs1 @ [f] @ fs2) (before @ [r] @ after)"
    by (intro list_all2_appendI)
  from loop_of_fields [OF fields this, of "[]"]
  have "parseNDEFMessage_loop data (Some 0) [] = Some (Inr (before @ [r] @ after))"
    by simp
  moreover have "(parseNDEFMessage buffer :: (error + 'j NDEFRecord list) option) =
      parseNDEFMessage_loop data (Some 0) []"
    by (rule parseNDEFMessage_loop_eq [OF tlv reads_fields_nonempty [OF fields]])
  ultimately have parsed: "parseNDEFMessage buffer = Some (Inr (before @ [r] @ after))"
    by simp
  have acc: "payload r pf = Inl (JSON_SyntaxError m)" "safePayload r pf = Failure m"
    "rawPayload r pf = rawPayloadField f"
    unfolding r by (rule json_record_accessors [OF bad])+
  from parsed acc show ?thesis by blast
qed

text \<open>
  A message of three records: a \<^verbatim>\<open>text/plain\<close> record, a JSON record with the malformed text
  of the test suite, and a PNG record.
\<close>

theorem JSON_payload_is_parsed_on_access_witness:
  "parseNDEFMessage
     ([0x03, 0x40, 0x92, 0x0A, 0x02] @ TextEncoder_encode ''text/plain'' @ TextEncoder_encode ''Hi''
        @ [0x12, 0x10, 0x0F] @ TextEncoder_encode ''application/json''
        @ TextEncoder_encode ''{invalid: json}''
        @ [0x52, 0x09, 0x03] @ TextEncoder_encode ''image/png'' @ [1, 2, 3] @ [0xFE])
     = Some (Inr [createNDEFRecordMediaTextFromBytes ''text/plain'' (TextEncoder_encode ''Hi'') None,
                  createNDEFRecordMediaApplicationJsonFromBytes
                    (TextEncoder_encode ''{invalid: json}'') None,
                  createNDEFRecordMediaBinaryFromBytes ''image/png'' [1, 2, 3] None
                    :: unit NDEFRecord])
   \<and> payload (createNDEFRecordMediaApplicationJsonFromBytes
                (TextEncoder_encode ''{invalid: json}'') None) sample_platform
       = Inl (JSON_SyntaxError ''Unexpected token'')
   \<and> safePayload (createNDEFRecordMediaApplicationJsonFromBytes
                    (TextEncoder_encode ''{invalid: json}'') None) sample_platform
       = Failure ''Unexpected token''"
proof -
  let ?raw = "TextEncoder_encode ''{invalid: json}''"
  let ?r = "createNDEFRecordMediaApplicationJsonFromBytes ?raw None :: unit NDEFRecord"
  let ?t = "createNDEFRecordMediaTextFromBytes ''text/plain'' (TextEncoder_encode ''Hi'') None
              :: unit NDEFRecord"
  let ?p = "createNDEFRecordMediaBinaryFromBytes ''image/png'' [1, 2, 3] None :: unit NDEFRecord"
  let ?data = "[0x92, 0x0A, 0x02] @ TextEncoder_encode ''text/plain'' @ TextEncoder_encode ''Hi''
        @ [0x12, 0x10, 0x0F] @ TextEncoder_encode ''application/json'' @ ?raw
        @ [0x52, 0x09, 0x03] @ TextEncoder_encode ''image/png'' @ [1, 2, 3]"
  let ?buffer = "[0x03, 0x40, 0x92, 0x0A, 0x02] @ TextEncoder_encode ''text/plain''
        @ TextEncoder_encode ''Hi''
        @ [0x12, 0x10, 0x0F] @ TextEncoder_encode ''application/json'' @ ?raw
        @ [0x52, 0x09, 0x03] @ TextEncoder_encode ''image/png'' @ [1, 2, 3] @ [0xFE]"
  let ?f1 = "\<lparr>header = \<lparr>NDEFRecordHeader.tnf = media, messageBeginFlag = True,
                      messageEndFlag = False, chunkFlag = False, shortRecordFlag = True,
                      idLengthFlag = False\<rparr>,
          rawTypeField = TextEncoder_encode ''text/plain'', rawIdField = None,
          rawPayloadField = TextEncoder_encode ''Hi'', offsetAfter = Some 15\<rparr>"
  let ?f = "\<lparr>header = \<lparr>NDEFRecordHeader.tnf = media, messageBeginFlag = False,
                      messageEndFlag = False, chunkFlag = False, shortRecordFlag = True,
                      idLengthFlag = False\<rparr>,
          rawTypeField = TextEncoder_encode ''application/json'', rawIdField = None,
          rawPayloadField = ?raw, offsetAfter = Some 49\<rparr>"
  let ?f3 = "\<lparr>header = \<lparr>NDEFRecordHeader.tnf = media, messageBeginFlag = False,
                      messageEndFlag = True, chunkFlag = False, shortRecordFlag = True,
                      idLengthFlag = False\<rparr>,
          rawTypeField = TextEncoder_encode ''image/png'', rawIdField = None,
          rawPayloadField = [1, 2, 3], offsetAfter = Some 64\<rparr>"
  have tlv: "validateAndStripTLV (stripLeadingTrailingZeros ?buffer) = Inr ?data"
    by (simp add: stripLeadingTrailingZeros_def validateAndStripTLV_def js_slice_def
        TextEncoder_encode_def)
  have f1: "readRecordFields ?data (Some 0) = Inr ?f1"
    by (simp add: readRecordFields_def parseNDEFRecordHeader_def js_ge_def js_gt_def js_add_def
      TextEncoder_encode_def
      js_index_def js_length_def js_slice_def ToInt32_def TNFCodeLookup_def Let_def)
  have f2: "readRecordFields ?data (Some 15) = Inr ?f"
    by (simp add: readRecordFields_def parseNDEFRecordHeader_def js_ge_def js_gt_def js_add_def
      TextEncoder_encode_def
      js_index_def js_length_def js_slice_def ToInt32_def TNFCodeLookup_def Let_def)
  have f3: "readRecordFields ?data (Some 49) = Inr ?f3"
    by (simp add: readRecordFields_def parseNDEFRecordHeader_def js_ge_def js_gt_def js_add_def
      TextEncoder_encode_def
      js_index_def js_length_def js_slice_def ToInt32_def TNFCodeLookup_def Let_def)
  have r3: "reads_fields ?data (Some 49) [?f3]"
    by (rule reads_fields.last_record [OF _ f3]) (simp_all add: js_lt_def js_length_def)
  have r2: "reads_fields ?data (Some 15) (?f # [?f3])"
    by (rule reads_fields.more_records [OF _ f2])
      (use r3 in \<open>simp_all add: js_lt_def js_length_def\<close>)
  have "reads_fields ?data (Some 0) (?f1 # ?f # [?f3])"
    by (rule reads_fields.more_records [OF _ f1])
      (use r2 in \<open>simp_all add: js_lt_def js_length_def\<close>)
  then have fields: "reads_fields ?data (Some 0) ([?f1] @ [?f] @ [?f3])"
    by simp
  have before: "list_all2 (\<lambda>g r. record_of_fields g = Inr r) [?f1] [?t]"
    by (simp add: record_of_fields_def createNDEFRecordFromRawData_def createMediaRecord_def
        TextEncoder_encode_def TextDecoder_decode_def REPLACEMENT_CHARACTER_def char_of_eq_iff)
  have after: "list_all2 (\<lambda>g r. record_of_fields g = Inr r) [?f3] [?p]"
    by (simp add: record_of_fields_def createNDEFRecordFromRawData_def createMediaRecord_def
        TextEncoder_encode_def TextDecoder_decode_def REPLACEMENT_CHARACTER_def char_of_eq_iff)
  have md: "NDEFRecordHeader.tnf (header ?f) = media" by simp
  have ty: "TextDecoder_decode (rawTypeField ?f) = ''application/json''"
    by (simp add: TextEncoder_encode_def TextDecoder_decode_def REPLACEMENT_CHARACTER_def
        char_of_eq_iff)
  have bad: "JSON_parse sample_platform (TextDecoder_decode (rawPayloadField ?f))
      = Inl ''Unexpected token''"
    by (simp add: sample_platform_def TextEncoder_encode_def TextDecoder_decode_def
        REPLACEMENT_CHARACTER_def char_of_eq_iff)
  have r: "?r = createNDEFRecordMediaApplicationJsonFromBytes (rawPayloadField ?f)
                  (map_option TextDecoder_decode (rawIdField ?f))"
    by simp
  show ?thesis
    using JSON_payload_is_parsed_on_access [OF tlv fields before after md ty bad r]
    by simp
qed

text \<open>
  Claim C5 as the specification states it has \<^verbatim>\<open>payload\<close> fail with an error that wraps the
  failure of \<^verbatim>\<open>JSON.parse\<close>. On the message of the test suite with the text
  \<^verbatim>\<open>{invalid: json}\<close>, the accessor of the decoded record fails with the \<^verbatim>\<open>SyntaxError\<close> that
  \<^verbatim>\<open>JSON.parse\<close> threw, as it is.
\<close>

theorem JSON_payload_fails_with_the_SyntaxError_counterexample:
  "parseNDEFMessage
     ([0x03, 0x22, 0xD2, 0x10, 0x0F] @ TextEncoder_encode ''application/json''
        @ TextEncoder_encode ''{invalid: json}'' @ [0xFE])
     = Some (Inr [createNDEFRecordMediaApplicationJsonFromBytes
                    (TextEncoder_encode ''{invalid: json}'') None :: unit NDEFRecord])
   \<and> JSON_parse sample_platform
         (TextDecoder_decode (TextEncoder_encode ''{invalid: json}'')) = Inl ''Unexpected token''
   \<and> payload (createNDEFRecordMediaApplicationJsonFromBytes
                (TextEncoder_encode ''{invalid: json}'') None) sample_platform
       = Inl (JSON_SyntaxError ''Unexpected token'')"
proof -
  let ?raw = "TextEncoder_encode ''{invalid: json}''"
  let ?r = "createNDEFRecordMediaApplicationJsonFromBytes ?raw None :: unit NDEFRecord"
  let ?data = "[0xD2, 0x10, 0x0F] @ TextEncoder_encode ''application/json'' @ ?raw"
  let ?buffer = "[0x03, 0x22, 0xD2, 0x10, 0x0F] @ TextEncoder_encode ''application/json''
        @ ?raw @ [0xFE]"
  have tlv: "validateAndStripTLV (stripLeadingTrailingZeros ?buffer) = Inr ?data"
    by (simp add: stripLeadingTrailingZeros_def validateAndStripTLV_def js_slice_def
        TextEncoder_encode_def)
  have rec: "parseNDEFRecord ?data (Some 0) =
      Inr \<lparr>ParsedNDEFRecordResult.record' = ?r, nextOffset = Some 34, isMessageEnd = True\<rparr>"
    by (simp add: parseNDEFRecord_def createNDEFRecordFromRawData_def createMediaRecord_def
      TextEncoder_encode_def TextDecoder_decode_def REPLACEMENT_CHARACTER_def char_of_eq_iff
      readRecordFields_def parseNDEFRecordHeader_def js_ge_def js_gt_def js_add_def
      js_index_def js_length_def js_slice_def ToInt32_def TNFCodeLookup_def Let_def)
  have "parseNDEFMessage_loop ?data (Some 0) [] = Some (Inr ([] @ [?r]))"
    using loop_unfold_end [OF _ rec, of "[]"] by (simp add: js_lt_def js_length_def)
  then have parsed: "parseNDEFMessage ?buffer = Some (Inr [?r])"
    using parseNDEFMessage_loop_eq [OF tlv, where ?'a = unit] by simp
  have "payload ?r sample_platform = Inl (JSON_SyntaxError ''Unexpected token'')"
    by (simp add: createNDEFRecordMediaApplicationJsonFromBytes_def sample_platform_def
        TextEncoder_encode_def TextDecoder_decode_def REPLACEMENT_CHARACTER_def char_of_eq_iff)
  moreover have "JSON_parse sample_platform (TextDecoder_decode ?raw) = Inl ''Unexpected token''"
    by (simp add: sample_platform_def TextEncoder_encode_def TextDecoder_decode_def
        REPLACEMENT_CHARACTER_def char_of_eq_iff)
  ultimately show ?thesis using parsed by simp
qed

section \<open>Decoding the records of a message\<close>

text \<open>
  The bytes that \<^verbatim>\<open>constructBytesFromRecordInfo\<close> writes for a record are read back by
  \<^verbatim>\<open>parseNDEFRecord\<close> at any offset of any buffer: the lemmas below follow the reader through
  the four layouts of a record (short or long payload length, with or without an ID).
\<close>


lemma num_consts:
  "(Some 0 :: number) = Some (int 0)" "(Some 1 :: number) = Some (int 1)"
  "(Some 2 :: number) = Some (int 2)" "(Some 3 :: number) = Some (int 3)"
  "(Some 4 :: number) = Some (int 4)"
  by simp_all

lemma js_add_nat: "js_add (Some (int a)) (Some (int b)) = Some (int (a + b))"
  by (simp add: js_add_def)

lemma index_field_val:
  "data = a @ x # b \<Longrightarrow> k = length a \<Longrightarrow> v = Some (uint x) \<Longrightarrow> js_index data (Some (int k)) = v"
  by (simp add: js_index_def)

lemma ge_field: "k < length data \<Longrightarrow> js_ge (Some (int k)) (js_length data) = False"
  by (simp add: js_ge_def js_length_def)

lemma gt_field: "k \<le> length data \<Longrightarrow> js_gt (Some (int k)) (js_length data) = False"
  by (simp add: js_gt_def js_length_def)

lemma slice_field_nat:
  "data = a @ ys @ b \<Longrightarrow> k = length a \<Longrightarrow>
   js_slice data (Some (int k)) (Some (int (k + length ys))) = ys"
  by (simp add: js_slice_def Let_def)

lemma uint_of_nat_byte: "n < 256 \<Longrightarrow> uint (of_nat n :: byte) = int n"
  by (simp add: uint_nat unat_of_nat take_bit_nat_eq_self)

lemma readRecordFields_short_noid:
  assumes hdr: "parseNDEFRecordHeader (Some (uint h)) = Inr hdr"
    and sr: "shortRecordFlag hdr = True" and il: "idLengthFlag hdr = False"
    and tl: "length ty < 256"
    and pl: "length pay < 256"
  shows "readRecordFields (pre @ ([h, of_nat (length ty), of_nat (length pay)] @ ty @ pay) @ post) (Some (int (length pre))) =
     Inr \<lparr>header = hdr, rawTypeField = ty, rawIdField = None, rawPayloadField = pay,
          offsetAfter = Some (int (length pre + 1 + 1 + 1 + length ty + length pay))\<rparr>"
proof -
  let ?data = "pre @ ([h, of_nat (length ty), of_nat (length pay)] @ ty @ pay) @ post"
  have g0: "js_ge (Some (int (length pre))) (js_length ?data) = False"
    by (rule ge_field) simp
  have i0: "js_index ?data (Some (int (length pre))) = Some (uint h)"
    by (rule index_field_val [where a = "pre" and x = "h" and b = "[of_nat (length ty), of_nat (length pay)] @ ty @ pay @ post"]) (simp_all add: uint_of_nat_byte tl pl)
  have g1: "js_ge (Some (int (length pre + 1))) (js_length ?data) = False"
    by (rule ge_field) simp
  have i1: "js_index ?data (Some (int (length pre + 1))) = Some (int (length ty))"
    by (rule index_field_val [where a = "pre @ [h]" and x = "of_nat (length ty)" and b = "[of_nat (length pay)] @ ty @ pay @ post"]) (simp_all add: uint_of_nat_byte tl pl)
  have g2: "js_ge (Some (int (length pre + 1 + 1))) (js_length ?data) = False"
    by (rule ge_field) simp
  have i2: "js_index ?data (Some (int (length pre + 1 + 1))) = Some (int (length pay))"
    by (rule index_field_val [where a = "pre @ [h, of_nat (length ty)]" and x = "of_nat (length pay)" and b = "ty @ pay @ post"]) (simp_all add: uint_of_nat_byte tl pl)
  have g4: "js_gt (Some (int (length pre + 1 + 1 + 1 + length ty))) (js_length ?data) = False"
    by (rule gt_field) simp
  have s4: "js_slice ?data (Some (int (length pre + 1 + 1 + 1))) (Some (int (length pre + 1 + 1 + 1 + length ty))) = ty"
    by (rule slice_field_nat [where a = "pre @ [h, of_nat (length ty), of_nat (length pay)]" and b = "pay @ post"]) simp_all
  have g6: "js_gt (Some (int (length pre + 1 + 1 + 1 + length ty + length pay))) (js_length ?data) = False"
    by (rule gt_field) simp
  have s6: "js_slice ?data (Some (int (length pre + 1 + 1 + 1 + length ty))) (Some (int (length pre + 1 + 1 + 1 + length ty + length pay))) = pay"
    by (rule slice_field_nat [where a = "pre @ [h, of_nat (length ty), of_nat (length pay)] @ ty" and b = "post"]) simp_all
  show ?thesis
    unfolding readRecordFields_def
    by (simp only: num_consts js_add_nat Let_def hdr sr il g0 i0 g1 i1 g2 i2 g4 s4 g6 s6
        if_True if_False sum.case prod.case)
qed

lemma readRecordFields_short_id:
  assumes hdr: "parseNDEFRecordHeader (Some (uint h)) = Inr hdr"
    and sr: "shortRecordFlag hdr = True" and il: "idLengthFlag hdr = True"
    and tl: "length ty < 256"
    and pl: "length pay < 256"
    and idl: "length idb < 256"
  shows "readRecordFields (pre @ ([h, of_nat (length ty), of_nat (length pay), of_nat (length idb)] @ ty @ idb @ pay) @ post) (Some (int (length pre))) =
     Inr \<lparr>header = hdr, rawTypeField = ty, rawIdField = Some idb, rawPayloadField = pay,
          offsetAfter = Some (int (length pre + 1 + 1 + 1 + 1 + length ty + length idb + length pay))\<rparr>"
proof -
  let ?data = "pre @ ([h, of_nat (length ty), of_nat (length pay), of_nat (length idb)] @ ty @ idb @ pay) @ post"
  have g0: "js_ge (Some (int (length pre))) (js_length ?data) = False"
    by (rule ge_field) simp
  have i0: "js_index ?data (Some (int (length pre))) = Some (uint h)"
    by (rule index_field_val [where a = "pre" and x = "h" and b = "[of_nat (length ty), of_nat (length pay), of_nat (length idb)] @ ty @ idb @ pay @ post"]) (simp_all add: uint_of_nat_byte tl pl idl)
  have g1: "js_ge (Some (int (length pre + 1))) (js_length ?data) = False"
    by (rule ge_field) simp
  have i1: "js_index ?data (Some (int (length pre + 1))) = Some (int (length ty))"
    by (rule index_field_val [where a = "pre @ [h]" and x = "of_nat (length ty)" and b = "[of_nat (length pay), of_nat (length idb)] @ ty @ idb @ pay @ post"]) (simp_all add: uint_of_nat_byte tl pl idl)
  have g2: "js_ge (Some (int (length pre + 1 + 1))) (js_length ?data) = False"
    by (rule ge_field) simp
  have i2: "js_index ?data (Some (int (length pre + 1 + 1))) = Some (int (length pay))"
    by (rule index_field_val [where a = "pre @ [h, of_nat (length ty)]" and x = "of_nat (length pay)" and b = "[of_nat (length idb)] @ ty @ idb @ pay @ post"]) (simp_all add: uint_of_nat_byte tl pl idl)
  have g3: "js_ge (Some (int (length pre + 1 + 1 + 1))) (js_length ?data) = False"
    by (rule ge_field) simp
  have i3: "js_index ?data (Some (int (length pre + 1 + 1 + 1))) = Some (int (length idb))"
    by (rule index_field_val [where a = "pre @ [h, of_nat (length ty), of_nat (length pay)]" and x = "of_nat (length idb)" and b = "ty @ idb @ pay @ post"]) (simp_all add: uint_of_nat_byte tl pl idl)
  have g4: "js_gt (Some (int (length pre + 1 + 1 + 1 + 1 + length ty))) (js_length ?data) = False"
    by (rule gt_field) simp
  have s4: "js_slice ?data (Some (int (length pre + 1 + 1 + 1 + 1))) (Some (int (length pre + 1 + 1 + 1 + 1 + length ty))) = ty"
    by (rule slice_field_nat [where a = "pre @ [h, of_nat (length ty), of_nat (length pay), of_nat (length idb)]" and b = "idb @ pay @ post"]) simp_all
  have g5: "js_gt (Some (int (length pre + 1 + 1 + 1 + 1 + length ty + length idb))) (js_length ?data) = False"
    by (rule gt_field) simp
  have s5: "js_slice ?data (Some (int (length pre + 1 + 1 + 1 + 1 + length ty))) (Some (int (length pre + 1 + 1 + 1 + 1 + length ty + length idb))) = idb"
    by (rule slice_field_nat [where a = "pre @ [h, of_nat (length ty), of_nat (length pay), of_nat (length idb)] @ ty" and b = "pay @ post"]) simp_all
  have g6: "js_gt (Some (int (length pre + 1 + 1 + 1 + 1 + length ty + length idb + length pay))) (js_length ?data) = False"
    by (rule gt_field) simp
  have s6: "js_slice ?data (Some (int (length pre + 1 + 1 + 1 + 1 + length ty + length idb))) (Some (int (length pre + 1 + 1 + 1 + 1 + length ty + length idb + length pay))) = pay"
    by (rule slice_field_nat [where a = "pre @ [h, of_nat (length ty), of_nat (length pay), of_nat (length idb)] @ ty @ idb" and b = "post"]) simp_all
  show ?thesis
    unfolding readRecordFields_def
    by (simp only: num_consts js_add_nat Let_def hdr sr il g0 i0 g1 i1 g2 i2 g3 i3 g4 s4 g5 s5 g6 s6
        if_True if_False sum.case prod.case)
qed

lemma readRecordFields_long_noid:
  assumes hdr: "parseNDEFRecordHeader (Some (uint h)) = Inr hdr"
    and sr: "shortRecordFlag hdr = False" and il: "idLengthFlag hdr = False"
    and tl: "length ty < 256"
    and pl: "sint (push_bit 24 (ucast b0 :: 32 word) OR push_bit 16 (ucast b1) OR push_bit 8 (ucast b2)
               OR ucast b3) = int (length pay)"
  shows "readRecordFields (pre @ ([h, of_nat (length ty), b0, b1, b2, b3] @ ty @ pay) @ post) (Some (int (length pre))) =
     Inr \<lparr>header = hdr, rawTypeField = ty, rawIdField = None, rawPayloadField = pay,
          offsetAfter = Some (int (length pre + 1 + 1 + 4 + length ty + length pay))\<rparr>"
proof -
  let ?data = "pre @ ([h, of_nat (length ty), b0, b1, b2, b3] @ ty @ pay) @ post"
  have g0: "js_ge (Some (int (length pre))) (js_length ?data) = False"
    by (rule ge_field) simp
  have i0: "js_index ?data (Some (int (length pre))) = Some (uint h)"
    by (rule index_field_val [where a = "pre" and x = "h" and b = "[of_nat (length ty), b0, b1, b2, b3] @ ty @ pay @ post"]) (simp_all add: uint_of_nat_byte tl)
  have g1: "js_ge (Some (int (length pre + 1))) (js_length ?data) = False"
    by (rule ge_field) simp
  have i1: "js_index ?data (Some (int (length pre + 1))) = Some (int (length ty))"
    by (rule index_field_val [where a = "pre @ [h]" and x = "of_nat (length ty)" and b = "[b0, b1, b2, b3] @ ty @ pay @ post"]) (simp_all add: uint_of_nat_byte tl)
  have g2: "js_gt (Some (int (length pre + 1 + 1 + 4))) (js_length ?data) = False"
    by (rule gt_field) simp
  have i2a: "js_index ?data (Some (int (length pre + 1 + 1))) = Some (uint b0)"
    by (rule index_field_val [where a = "pre @ [h, of_nat (length ty)]" and x = "b0" and b = "[b1, b2, b3] @ ty @ pay @ post"]) (simp_all add: uint_of_nat_byte tl)
  have i2b: "js_index ?data (Some (int (length pre + 1 + 1 + 1))) = Some (uint b1)"
    by (rule index_field_val [where a = "pre @ [h, of_nat (length ty), b0]" and x = "b1" and b = "[b2, b3] @ ty @ pay @ post"]) (simp_all add: uint_of_nat_byte tl)
  have i2c: "js_index ?data (Some (int (length pre + 1 + 1 + 2))) = Some (uint b2)"
    by (rule index_field_val [where a = "pre @ [h, of_nat (length ty), b0, b1]" and x = "b2" and b = "[b3] @ ty @ pay @ post"]) (simp_all add: uint_of_nat_byte tl)
  have i2d: "js_index ?data (Some (int (length pre + 1 + 1 + 3))) = Some (uint b3)"
    by (rule index_field_val [where a = "pre @ [h, of_nat (length ty), b0, b1, b2]" and x = "b3" and b = "ty @ pay @ post"]) (simp_all add: uint_of_nat_byte tl)
  have g4: "js_gt (Some (int (length pre + 1 + 1 + 4 + length ty))) (js_length ?data) = False"
    by (rule gt_field) simp
  have s4: "js_slice ?data (Some (int (length pre + 1 + 1 + 4))) (Some (int (length pre + 1 + 1 + 4 + length ty))) = ty"
    by (rule slice_field_nat [where a = "pre @ [h, of_nat (length ty), b0, b1, b2, b3]" and b = "pay @ post"]) simp_all
  have g6: "js_gt (Some (int (length pre + 1 + 1 + 4 + length ty + length pay))) (js_length ?data) = False"
    by (rule gt_field) simp
  have s6: "js_slice ?data (Some (int (length pre + 1 + 1 + 4 + length ty))) (Some (int (length pre + 1 + 1 + 4 + length ty + length pay))) = pay"
    by (rule slice_field_nat [where a = "pre @ [h, of_nat (length ty), b0, b1, b2, b3] @ ty" and b = "post"]) simp_all
  show ?thesis
    unfolding readRecordFields_def
    by (simp only: num_consts js_add_nat Let_def hdr sr il g0 i0 g1 i1 g2 i2a i2b i2c i2d g4 s4 g6 s6 ToInt32_byte pl
        if_True if_False sum.case prod.case)
qed

lemma readRecordFields_long_id:
  assumes hdr: "parseNDEFRecordHeader (Some (uint h)) = Inr hdr"
    and sr: "shortRecordFlag hdr = False" and il: "idLengthFlag hdr = True"
    and tl: "length ty < 256"
    and pl: "sint (push_bit 24 (ucast b0 :: 32 word) OR push_bit 16 (ucast b1) OR push_bit 8 (ucast b2)
               OR ucast b3) = int (length pay)"
    and idl: "length idb < 256"
  shows "readRecordFields (pre @ ([h, of_nat (length ty), b0, b1, b2, b3, of_nat (length idb)] @ ty @ idb @ pay) @ post) (Some (int (length pre))) =
     Inr \<lparr>header = hdr, rawTypeField = ty, rawIdField = Some idb, rawPayloadField = pay,
          offsetAfter = Some (int (length pre + 1 + 1 + 4 + 1 + length ty + length idb + length pay))\<rparr>"
proof -
  let ?data = "pre @ ([h, of_nat (length ty), b0, b1, b2, b3, of_nat (length idb)] @ ty @ idb @ pay) @ post"
  have g0: "js_ge (Some (int (length pre))) (js_length ?data) = False"
    by (rule ge_field) simp
  have i0: "js_index ?data (Some (int (length pre))) = Some (uint h)"
    by (rule index_field_val [where a = "pre" and x = "h" and b = "[of_nat (length ty), b0, b1, b2, b3, of_nat (length idb)] @ ty @ idb @ pay @ post"]) (simp_all add: uint_of_nat_byte tl idl)
  have g1: "js_ge (Some (int (length pre + 1))) (js_length ?data) = False"
    by (rule ge_field) simp
  have i1: "js_index ?data (Some (int (length pre + 1))) = Some (int (length ty))"
    by (rule index_field_val [where a = "pre @ [h]" and x = "of_nat (length ty)" and b = "[b0, b1, b2, b3, of_nat (length idb)] @ ty @ idb @ pay @ post"]) (simp_all add: uint_of_nat_byte tl idl)
  have g2: "js_gt (Some (int (length pre + 1 + 1 + 4))) (js_length ?data) = False"
    by (rule gt_field) simp
  have i2a: "js_index ?data (Some (int (length pre + 1 + 1))) = Some (uint b0)"
    by (rule index_field_val [where a = "pre @ [h, of_nat (length ty)]" and x = "b0" and b = "[b1, b2, b3, of_nat (length idb)] @ ty @ idb @ pay @ post"]) (simp_all add: uint_of_nat_byte tl idl)
  have i2b: "js_index ?data (Some (int (length pre + 1 + 1 + 1))) = Some (uint b1)"
    by (rule index_field_val [where a = "pre @ [h, of_nat (length ty), b0]" and x = "b1" and b = "[b2, b3, of_nat (length idb)] @ ty @ idb @ pay @ post"]) (simp_all add: uint_of_nat_byte tl idl)
  have i2c: "js_index ?data (Some (int (length pre + 1 + 1 + 2))) = Some (uint b2)"
    by (rule index_field_val [where a = "pre @ [h, of_nat (length ty), b0, b1]" and x = "b2" and b = "[b3, of_nat (length idb)] @ ty @ idb @ pay @ post"]) (simp_all add: uint_of_nat_byte tl idl)
  have i2d: "js_index ?data (Some (int (length pre + 1 + 1 + 3))) = Some (uint b3)"
    by (rule index_field_val [where a = "pre @ [h, of_nat (length ty), b0, b1, b2]" and x = "b3" and b = "[of_nat (length idb)] @ ty @ idb @ pay @ post"]) (simp_all add: uint_of_nat_byte tl idl)
  have g3: "js_ge (Some (int (length pre + 1 + 1 + 4))) (js_length ?data) = False"
    by (rule ge_field) simp
  have i3: "js_index ?data (Some (int (length pre + 1 + 1 + 4))) = Some (int (length idb))"
    by (rule index_field_val [where a = "pre @ [h, of_nat (length ty), b0, b1, b2, b3]" and x = "of_nat (length idb)" and b = "ty @ idb @ pay @ post"]) (simp_all add: uint_of_nat_byte tl idl)
  have g4: "js_gt (Some (int (length pre + 1 + 1 + 4 + 1 + length ty))) (js_length ?data) = False"
    by (rule gt_field) simp
  have s4: "js_slice ?data (Some (int (length pre + 1 + 1 + 4 + 1))) (Some (int (length pre + 1 + 1 + 4 + 1 + length ty))) = ty"
    by (rule slice_field_nat [where a = "pre @ [h, of_nat (length ty), b0, b1, b2, b3, of_nat (length idb)]" and b = "idb @ pay @ post"]) simp_all
  have g5: "js_gt (Some (int (length pre + 1 + 1 + 4 + 1 + length ty + length idb))) (js_length ?data) = False"
    by (rule gt_field) simp
  have s5: "js_slice ?data (Some (int (length pre + 1 + 1 + 4 + 1 + length ty))) (Some (int (length pre + 1 + 1 + 4 + 1 + length ty + length idb))) = idb"
    by (rule slice_field_nat [where a = "pre @ [h, of_nat (length ty), b0, b1, b2, b3, of_nat (length idb)] @ ty" and b = "pay @ post"]) simp_all
  have g6: "js_gt (Some (int (length pre + 1 + 1 + 4 + 1 + length ty + length idb + length pay))) (js_length ?data) = False"
    by (rule gt_field) simp
  have s6: "js_slice ?data (Some (int (length pre + 1 + 1 + 4 + 1 + length ty + length idb))) (Some (int (length pre + 1 + 1 + 4 + 1 + length ty + length idb + length pay))) = pay"
    by (rule slice_field_nat [where a = "pre @ [h, of_nat (length ty), b0, b1, b2, b3, of_nat (length idb)] @ ty @ idb" and b = "post"]) simp_all
  show ?thesis
    unfolding readRecordFields_def
    by (simp only: num_consts js_add_nat Let_def hdr sr il g0 i0 g1 i1 g2 i2a i2b i2c i2d g3 i3 g4 s4 g5 s5 g6 s6 ToInt32_byte pl
        if_True if_False sum.case prod.case)
qed

lemma bit_FF: "bit (0xFF :: 32 word) n = (n < 8)"
proof -
  have e: "(0xFF :: 32 word) = mask 8" by (simp add: mask_eq_exp_minus_1)
  show ?thesis by (simp only: e bit_mask_iff) auto
qed

lemma bit_FF_byte: "bit (0xFF :: byte) n = (n < 8)"
proof -
  have e: "(0xFF :: byte) = mask 8" by (simp add: mask_eq_exp_minus_1)
  show ?thesis by (simp only: e bit_mask_iff) auto
qed

lemma bit_FF_int: "bit (0xFF :: int) n = (n < 8)"
proof -
  have e: "(0xFF :: int) = mask 8" by (simp add: mask_eq_exp_minus_1)
  show ?thesis by (simp only: e bit_mask_iff) auto
qed

lemma be32:
  fixes w :: "32 word"
  shows "push_bit 24 (ucast (ucast (signed_drop_bit 24 w AND 0xFF) :: byte) :: 32 word)
       OR push_bit 16 (ucast (ucast (signed_drop_bit 16 w AND 0xFF) :: byte))
       OR push_bit 8 (ucast (ucast (signed_drop_bit 8 w AND 0xFF) :: byte))
       OR ucast (ucast (w AND 0xFF) :: byte) = w"
proof (rule bit_word_eqI)
  fix n :: nat
  assume n: "n < LENGTH(32)"
  then consider "n < 8" | "8 \<le> n" "n < 16" | "16 \<le> n" "n < 24" | "24 \<le> n" "n < 32"
    by fastforce
  then show "bit (push_bit 24 (ucast (ucast (signed_drop_bit 24 w AND 0xFF) :: byte) :: 32 word)
       OR push_bit 16 (ucast (ucast (signed_drop_bit 16 w AND 0xFF) :: byte))
       OR push_bit 8 (ucast (ucast (signed_drop_bit 8 w AND 0xFF) :: byte))
       OR ucast (ucast (w AND 0xFF) :: byte)) n = bit w n"
  proof cases
    case 1
    then show ?thesis
      by (simp add: bit_or_iff bit_push_bit_iff bit_ucast_iff bit_and_iff bit_FF bit_FF_byte bit_FF_int
          bit_signed_drop_bit_iff)
  next
    case 2
    then show ?thesis
      by (auto simp add: bit_or_iff bit_push_bit_iff bit_ucast_iff bit_and_iff bit_FF bit_FF_byte bit_FF_int
          bit_signed_drop_bit_iff)
  next
    case 3
    then show ?thesis
      by (auto simp add: bit_or_iff bit_push_bit_iff bit_ucast_iff bit_and_iff bit_FF bit_FF_byte bit_FF_int
          bit_signed_drop_bit_iff)
  next
    case 4
    then show ?thesis
      by (auto simp add: bit_or_iff bit_push_bit_iff bit_ucast_iff bit_and_iff bit_FF bit_FF_byte bit_FF_int
          bit_signed_drop_bit_iff)
  qed
qed

lemma sint_of_nat_32: "n < 2 ^ 31 \<Longrightarrow> sint (of_nat n :: 32 word) = int n"
  by (simp add: signed_of_nat signed_take_bit_int_eq_self)


lemma length_constructHeaderByte: "length (constructHeaderByte info) = 1"
  by (simp add: constructHeaderByte_def Let_def)

lemma readRecordFields_of_constructBytes:
  fixes info :: "'j RecordInfo"
  assumes enc: "constructBytesFromRecordInfo pf info = Inr bs"
    and sz: "length (rawPayload (RecordInfo.record' info) pf) < 2 ^ 31"
  shows "readRecordFields (pre @ bs @ post) (Some (int (length pre))) =
     Inr \<lparr>header = \<lparr>NDEFRecordHeader.tnf = tnf (RecordInfo.record' info),
                      messageBeginFlag = isBeginning info, messageEndFlag = isEnd info,
                      chunkFlag = False,
                      shortRecordFlag = (length (rawPayload (RecordInfo.record' info) pf) < 256),
                      idLengthFlag = (rawId (RecordInfo.record' info) \<noteq> None)\<rparr>,
          rawTypeField = rawType (RecordInfo.record' info),
          rawIdField = rawId (RecordInfo.record' info),
          rawPayloadField = rawPayload (RecordInfo.record' info) pf,
          offsetAfter = Some (int (length pre + length bs))\<rparr>"
proof -
  define r where "r = RecordInfo.record' info"
  define pay where "pay = rawPayload r pf"
  define ty where "ty = rawType r"
  define len32 where "len32 = (of_nat (length pay) :: 32 word)"
  define plb where "plb = (if length pay < 256 then [of_nat (length pay) :: byte]
                 else [ucast (signed_drop_bit 24 len32 AND 0xFF),
                       ucast (signed_drop_bit 16 len32 AND 0xFF),
                       ucast (signed_drop_bit 8 len32 AND 0xFF),
                       ucast (len32 AND 0xFF)])"
  define hdr where "hdr = \<lparr>NDEFRecordHeader.tnf = tnf r,
                      messageBeginFlag = isBeginning info, messageEndFlag = isEnd info,
                      chunkFlag = False, shortRecordFlag = (length pay < 256),
                      idLengthFlag = (rawId r \<noteq> None)\<rparr>"
  obtain h where h: "constructHeaderByte \<lparr>tnfCode = TNFLookup (tnf r),
          HeaderBytesInfo.isBeginning = isBeginning info, HeaderBytesInfo.isEnd = isEnd info,
          isIdPresent = (rawId r \<noteq> None), isShortRecord = (length pay < 256),
          isChunked = False\<rparr> = [h]"
    and ph: "parseNDEFRecordHeader (Some (uint h)) = Inr hdr"
    unfolding hdr_def using header_roundtrip by blast
  have tl: "length ty < 256"
    using enc by (simp add: constructBytesFromRecordInfo_def Let_def r_def ty_def split: if_splits)
  have bs: "bs = [h, of_nat (length ty)] @ plb
               @ (case rawId r of None \<Rightarrow> [] | Some i \<Rightarrow> [of_nat (length i)])
               @ ty @ (case rawId r of None \<Rightarrow> [] | Some i \<Rightarrow> i) @ pay"
    using enc h
    by (simp add: constructBytesFromRecordInfo_def Let_def r_def ty_def pay_def plb_def len32_def
        split: if_splits)
  have sr: "shortRecordFlag hdr = (length pay < 256)" and il: "idLengthFlag hdr = (rawId r \<noteq> None)"
    by (simp_all add: hdr_def)
  have pl32: "sint (push_bit 24 (ucast (ucast (signed_drop_bit 24 len32 AND 0xFF) :: byte) :: 32 word)
       OR push_bit 16 (ucast (ucast (signed_drop_bit 16 len32 AND 0xFF) :: byte))
       OR push_bit 8 (ucast (ucast (signed_drop_bit 8 len32 AND 0xFF) :: byte))
       OR ucast (ucast (len32 AND 0xFF) :: byte)) = int (length pay)"
    using sz by (simp only: be32) (simp add: len32_def pay_def r_def sint_of_nat_32)
  have goal: "readRecordFields (pre @ bs @ post) (Some (int (length pre))) =
     Inr \<lparr>header = hdr, rawTypeField = ty, rawIdField = rawId r, rawPayloadField = pay,
          offsetAfter = Some (int (length pre + length bs))\<rparr>"
  proof (cases "rawId r")
    case None
    show ?thesis
    proof (cases "length pay < 256")
      case True
      have "bs = [h, of_nat (length ty), of_nat (length pay)] @ ty @ pay"
        using bs None True by (simp add: plb_def)
      moreover have "length pre + length bs = length pre + 1 + 1 + 1 + length ty + length pay"
        using calculation by simp
      ultimately show ?thesis
        using readRecordFields_short_noid [OF ph _ _ tl True, of pre post] sr il None True
        by simp
    next
      case False
      have "bs = [h, of_nat (length ty), ucast (signed_drop_bit 24 len32 AND 0xFF),
                       ucast (signed_drop_bit 16 len32 AND 0xFF),
                       ucast (signed_drop_bit 8 len32 AND 0xFF),
                       ucast (len32 AND 0xFF)] @ ty @ pay"
        using bs None False by (simp add: plb_def)
      moreover have "length pre + length bs = length pre + 1 + 1 + 4 + length ty + length pay"
        using calculation by simp
      ultimately show ?thesis
        using readRecordFields_long_noid [OF ph _ _ tl pl32, of pre post] sr il None False
        by simp
    qed
  next
    case (Some idb)
    have idl: "length idb < 256"
      using enc Some
      by (simp add: constructBytesFromRecordInfo_def Let_def r_def split: if_splits)
    show ?thesis
    proof (cases "length pay < 256")
      case True
      have "bs = [h, of_nat (length ty), of_nat (length pay), of_nat (length idb)] @ ty @ idb @ pay"
        using bs Some True by (simp add: plb_def)
      moreover have "length pre + length bs
           = length pre + 1 + 1 + 1 + 1 + length ty + length idb + length pay"
        using calculation by simp
      ultimately show ?thesis
        using readRecordFields_short_id [OF ph _ _ tl True idl, of pre post] sr il Some True
        by simp
    next
      case False
      have "bs = [h, of_nat (length ty), ucast (signed_drop_bit 24 len32 AND 0xFF),
                       ucast (signed_drop_bit 16 len32 AND 0xFF),
                       ucast (signed_drop_bit 8 len32 AND 0xFF),
                       ucast (len32 AND 0xFF), of_nat (length idb)] @ ty @ idb @ pay"
        using bs Some False by (simp add: plb_def)
      moreover have "length pre + length bs
           = length pre + 1 + 1 + 4 + 1 + length ty + length idb + length pay"
        using calculation by simp
      ultimately show ?thesis
        using readRecordFields_long_id [OF ph _ _ tl pl32 idl, of pre post] sr il Some False
        by simp
    qed
  qed
  then show ?thesis
    by (simp add: hdr_def r_def pay_def ty_def)
qed


lemma parseNDEFRecord_of_constructBytes:
  fixes info :: "'j RecordInfo" and r' :: "'j NDEFRecord"
  assumes enc: "constructBytesFromRecordInfo pf info = Inr bs"
    and sz: "length (rawPayload (RecordInfo.record' info) pf) < 2 ^ 31"
    and dec: "createNDEFRecordFromRawData (tnf (RecordInfo.record' info))
                (rawType (RecordInfo.record' info)) (rawPayload (RecordInfo.record' info) pf)
                (rawId (RecordInfo.record' info)) = Inr r'"
  shows "parseNDEFRecord (pre @ bs @ post) (Some (int (length pre))) =
     Inr \<lparr>ParsedNDEFRecordResult.record' = r',
          nextOffset = Some (int (length pre + length bs)), isMessageEnd = isEnd info\<rparr>"
  unfolding parseNDEFRecord_def
  by (simp add: readRecordFields_of_constructBytes [OF enc sz] dec)

lemma constructBytesFromRecordInfo_nonempty:
  assumes "constructBytesFromRecordInfo pf info = Inr bs"
  shows "bs \<noteq> []"
  using assms length_constructHeaderByte
  by (auto simp add: constructBytesFromRecordInfo_def Let_def split: if_splits)

lemma loop_on_records:
  fixes infos :: "'j RecordInfo list" and rs acc :: "'j NDEFRecord list"
  assumes "list_all2 (\<lambda>info bs. constructBytesFromRecordInfo pf info = Inr bs) infos bss"
    and "\<forall>info\<in>set infos. length (rawPayload (RecordInfo.record' info) pf) < 2 ^ 31"
    and "list_all2 (\<lambda>info r. createNDEFRecordFromRawData (tnf (RecordInfo.record' info))
                (rawType (RecordInfo.record' info)) (rawPayload (RecordInfo.record' info) pf)
                (rawId (RecordInfo.record' info)) = Inr r) infos rs"
    and "infos \<noteq> []"
    and "\<forall>info\<in>set (butlast infos). \<not> isEnd info"
    and "isEnd (last infos) \<or> rest = []"
  shows "parseNDEFMessage_loop (pre @ concat bss @ rest) (Some (int (length pre))) acc
           = Some (Inr (acc @ rs))"
  using assms
proof (induction infos arbitrary: bss rs pre acc)
  case Nil
  then show ?case by simp
next
  case (Cons info infos)
  from Cons.prems(1) obtain bs bss' where bss: "bss = bs # bss'"
    and enc: "constructBytesFromRecordInfo pf info = Inr bs"
    and encs: "list_all2 (\<lambda>info bs. constructBytesFromRecordInfo pf info = Inr bs) infos bss'"
    by (auto simp add: list_all2_Cons1)
  from Cons.prems(3) obtain r rs' where rs: "rs = r # rs'"
    and dec: "createNDEFRecordFromRawData (tnf (RecordInfo.record' info))
                (rawType (RecordInfo.record' info)) (rawPayload (RecordInfo.record' info) pf)
                (rawId (RecordInfo.record' info)) = Inr r"
    and decs: "list_all2 (\<lambda>info r. createNDEFRecordFromRawData (tnf (RecordInfo.record' info))
                (rawType (RecordInfo.record' info)) (rawPayload (RecordInfo.record' info) pf)
                (rawId (RecordInfo.record' info)) = Inr r) infos rs'"
    by (auto simp add: list_all2_Cons1)
  from Cons.prems(2) have sz: "length (rawPayload (RecordInfo.record' info) pf) < 2 ^ 31"
    and szs: "\<forall>info\<in>set infos. length (rawPayload (RecordInfo.record' info) pf) < 2 ^ 31"
    by simp_all
  let ?data = "pre @ concat bss @ rest"
  have data: "?data = pre @ bs @ (concat bss' @ rest)" by (simp add: bss)
  have rec: "parseNDEFRecord ?data (Some (int (length pre))) =
     Inr \<lparr>ParsedNDEFRecordResult.record' = r,
          nextOffset = Some (int (length pre + length bs)), isMessageEnd = isEnd info\<rparr>"
    unfolding data by (rule parseNDEFRecord_of_constructBytes [OF enc sz dec])
  have ne: "bs \<noteq> []" by (rule constructBytesFromRecordInfo_nonempty [OF enc])
  then have lt: "js_lt (Some (int (length pre))) (js_length ?data)"
    by (cases bs) (simp_all add: js_lt_def js_length_def bss)
  show ?case
  proof (cases "isEnd info")
    case True
    with Cons.prems(5) have "infos = []" by (cases infos) auto
    with decs have "rs' = []" by simp
    with loop_unfold_end [OF lt rec] True rs show ?thesis by simp
  next
    case False
    have step: "parseNDEFMessage_loop ?data (Some (int (length pre))) acc =
        parseNDEFMessage_loop ?data (Some (int (length pre + length bs))) (acc @ [r])"
      using loop_unfold_round [OF lt rec] False by simp
    show ?thesis
    proof (cases "infos = []")
      case True
      with Cons.prems(6) False have "rest = []" by simp
      moreover from True encs decs have "bss' = []" "rs' = []" by simp_all
      ultimately have "\<not> js_lt (Some (int (length pre + length bs))) (js_length ?data)"
        by (simp add: js_lt_def js_length_def bss)
      from loop_unfold_exit [OF this] step rs \<open>rs' = []\<close> show ?thesis by simp
    next
      case nonempty: False
      then have "\<forall>info\<in>set (butlast infos). \<not> isEnd info" "isEnd (last infos) \<or> rest = []"
        using Cons.prems(5,6) by auto
      from Cons.IH [OF encs szs decs nonempty this, of "pre @ bs" "acc @ [r]"]
      have "parseNDEFMessage_loop ((pre @ bs) @ concat bss' @ rest)
              (Some (int (length (pre @ bs)))) (acc @ [r]) = Some (Inr ((acc @ [r]) @ rs'))" .
      with step show ?thesis by (simp add: bss rs)
    qed
  qed
qed


text \<open>
  Let the TLV value hold the bytes that \<^verbatim>\<open>constructBytesFromRecordInfo\<close> writes for the records
  \<open>infos\<close>, with payloads shorter than \<open>2\<^sup>3\<^sup>1\<close> bytes, followed by any bytes \<open>rest\<close>, where no
  record but the last has the end flag, and the last has it or \<open>rest\<close> is empty. Then
  \<^verbatim>\<open>parseNDEFMessage\<close> returns the records that \<^verbatim>\<open>createNDEFRecordFromRawData\<close> builds from their
  fields: it stops at the first end flag, or at the end of the value, it does not read \<open>rest\<close>,
  and the begin flags make no difference.
\<close>

lemma parseNDEFMessage_of_encoded_records:
  fixes infos :: "'j RecordInfo list" and rs :: "'j NDEFRecord list"
  assumes tlv: "validateAndStripTLV (stripLeadingTrailingZeros buffer) = Inr (concat bss @ rest)"
    and enc: "list_all2 (\<lambda>info bs. constructBytesFromRecordInfo pf info = Inr bs) infos bss"
    and sz: "\<forall>info\<in>set infos. length (rawPayload (RecordInfo.record' info) pf) < 2 ^ 31"
    and dec: "list_all2 (\<lambda>info r. createNDEFRecordFromRawData (tnf (RecordInfo.record' info))
                (rawType (RecordInfo.record' info)) (rawPayload (RecordInfo.record' info) pf)
                (rawId (RecordInfo.record' info)) = Inr r) infos rs"
    and ne: "infos \<noteq> []"
    and no_end_before: "\<forall>info\<in>set (butlast infos). \<not> isEnd info"
    and stop: "isEnd (last infos) \<or> rest = []"
  shows "parseNDEFMessage buffer = Some (Inr rs)"
proof -
  from enc ne obtain bs bss' where bss: "bss = bs # bss'"
    and e: "constructBytesFromRecordInfo pf (hd infos) = Inr bs"
    by (cases infos) (auto simp add: list_all2_Cons1)
  have "bs \<noteq> []" by (rule constructBytesFromRecordInfo_nonempty [OF e])
  then have nonempty: "concat bss @ rest \<noteq> []" by (simp add: bss)
  have "parseNDEFMessage_loop ([] @ concat bss @ rest) (Some (int (length ([] :: byte list)))) []
          = Some (Inr ([] @ rs))"
    by (rule loop_on_records [OF enc sz dec ne no_end_before stop])
  then have "parseNDEFMessage_loop (concat bss @ rest) (Some 0) [] = Some (Inr rs)"
    by simp
  moreover have "(parseNDEFMessage buffer :: (error + 'j NDEFRecord list) option) =
      parseNDEFMessage_loop (concat bss @ rest) (Some 0) []"
    by (rule parseNDEFMessage_loop_eq [OF tlv nonempty])
  ultimately show ?thesis by simp
qed


text \<open>
  Two records that both carry the begin flag, the second with the end flag, followed by two bytes
  \<open>FF FF\<close> that are no record.
\<close>

lemma parseNDEFMessage_of_encoded_records_example:
  "parseNDEFMessage
     ([0x03, 0x20, 0x92, 0x0A, 0x02] @ TextEncoder_encode ''text/plain'' @ TextEncoder_encode ''Hi''
        @ [0xD2, 0x09, 0x03] @ TextEncoder_encode ''image/png'' @ [1, 2, 3]
        @ [0xFF, 0xFF] @ [0xFE])
     = Some (Inr [createNDEFRecordMediaTextFromBytes ''text/plain'' (TextEncoder_encode ''Hi'') None,
                  createNDEFRecordMediaBinaryFromBytes ''image/png'' [1, 2, 3] None
                    :: unit NDEFRecord])"
proof -
  let ?i1 = "\<lparr>RecordInfo.record' = createNDEFRecordMediaTextPlain ''Hi'' None,
       isBeginning = True, isEnd = False\<rparr> :: unit RecordInfo"
  let ?i2 = "\<lparr>RecordInfo.record' = createNDEFRecordMediaBinary ''image/png'' [1, 2, 3] None,
       isBeginning = True, isEnd = True\<rparr> :: unit RecordInfo"
  let ?b1 = "[0x92, 0x0A, 0x02] @ TextEncoder_encode ''text/plain'' @ TextEncoder_encode ''Hi''"
  let ?b2 = "[0xD2, 0x09, 0x03] @ TextEncoder_encode ''image/png'' @ [1, 2, 3 :: byte]"
  let ?rest = "[0xFF, 0xFF :: byte]"
  let ?buffer = "[0x03, 0x20, 0x92, 0x0A, 0x02] @ TextEncoder_encode ''text/plain''
        @ TextEncoder_encode ''Hi''
        @ [0xD2, 0x09, 0x03] @ TextEncoder_encode ''image/png'' @ [1, 2, 3]
        @ [0xFF, 0xFF] @ [0xFE :: byte]"
  let ?r1 = "createNDEFRecordMediaTextFromBytes ''text/plain'' (TextEncoder_encode ''Hi'') None
               :: unit NDEFRecord"
  let ?r2 = "createNDEFRecordMediaBinaryFromBytes ''image/png'' [1, 2, 3] None :: unit NDEFRecord"
  have tlv: "validateAndStripTLV (stripLeadingTrailingZeros ?buffer) = Inr (concat [?b1, ?b2] @ ?rest)"
    by (simp add: stripLeadingTrailingZeros_def validateAndStripTLV_def js_slice_def
        TextEncoder_encode_def)
  have enc: "list_all2 (\<lambda>info bs. constructBytesFromRecordInfo sample_platform info = Inr bs)
               [?i1, ?i2] [?b1, ?b2]"
    by (simp add: constructBytesFromRecordInfo_def createNDEFRecordMediaBinary_def
        createNDEFRecordMediaTextPlain_def createNDEFRecordMediaText_def
        prepareIdForRecord_def TextEncoder_encode_def constructHeaderByte_def Let_def)
  have sz: "\<forall>info\<in>set [?i1, ?i2].
      length (rawPayload (RecordInfo.record' info) sample_platform) < 2 ^ 31"
    by (simp add: createNDEFRecordMediaBinary_def
        createNDEFRecordMediaTextPlain_def createNDEFRecordMediaText_def TextEncoder_encode_def)
  have dec: "list_all2 (\<lambda>info r. createNDEFRecordFromRawData (tnf (RecordInfo.record' info))
                (rawType (RecordInfo.record' info))
                (rawPayload (RecordInfo.record' info) sample_platform)
                (rawId (RecordInfo.record' info)) = Inr r) [?i1, ?i2] [?r1, ?r2]"
    by (simp add: createNDEFRecordFromRawData_def createMediaRecord_def
        createNDEFRecordMediaBinary_def prepareIdForRecord_def
        createNDEFRecordMediaTextPlain_def createNDEFRecordMediaText_def
        TextEncoder_encode_def TextDecoder_decode_def REPLACEMENT_CHARACTER_def char_of_eq_iff)
  show ?thesis
    using parseNDEFMessage_of_encoded_records [OF tlv enc sz dec] by simp
qed

section \<open>A payload length with the top bit set\<close>

text \<open>
  A record that is not the last and after which the cursor is where it was before: the loop
  reads this record again and again and does not return.
\<close>

lemma loop_does_not_return:
  fixes records :: "'j NDEFRecord list"
  assumes lt: "js_lt offset (js_length data)"
    and rec: "parseNDEFRecord data offset = Inr (recordResult :: 'j ParsedNDEFRecordResult)"
    and no_end: "\<not> isMessageEnd recordResult"
    and same: "nextOffset recordResult = offset"
  shows "parseNDEFMessage_loop data offset records = None"
proof (rule ccontr)
  assume "parseNDEFMessage_loop data offset records \<noteq> None"
  then obtain res where run: "parseNDEFMessage_loop data offset records = Some res"
    by blast
  have "\<not> (data = data \<and> offset = offset)"
  proof (rule parseNDEFMessage_loop.raw_induct
      [where P = "\<lambda>d off (recs :: 'j NDEFRecord list) res. \<not> (d = data \<and> off = offset)",
        OF _ run], goal_cases)
    case (1 loop d off recs res)
    show ?case
    proof
      assume "d = data \<and> off = offset"
      with 1(2) lt rec no_end same
      have "loop data offset (recs @ [ParsedNDEFRecordResult.record' recordResult]) = Some res"
        by simp
      from 1(1) [OF this] show False by simp
    qed
  qed
  then show False by simp
qed

text \<open>
  Claim C8 fails on the code for a record whose four-byte payload length has its top bit set.
  \<^verbatim>\<open>parseNDEFRecord\<close> assembles the length with \<^verbatim>\<open><<\<close> and \<^verbatim>\<open>|\<close>, which gives a negative number;
  the check \<^verbatim>\<open>offset + payloadLength > data.length\<close> lets it through and the cursor moves
  backwards. With the length bytes \<^verbatim>\<open>FF FF FF FA\<close> (-6) in a value of six bytes the cursor is
  back at 0 after the record, and \<^verbatim>\<open>parseNDEFMessage\<close> does not return. With \<^verbatim>\<open>FF FF FF F8\<close>
  (-8) the cursor is at -2: a second record is read from outside the value, the cursor becomes
  \<^verbatim>\<open>NaN\<close>, and the loop ends with two records, neither on a message-end flag nor at the end
  of the value.
\<close>

theorem decoding_with_a_negative_payload_length:
  "parseNDEFRecord [0x01, 0x00, 0xFF, 0xFF, 0xFF, 0xFA] (Some 0)
     = Inr \<lparr>ParsedNDEFRecordResult.record' =
              (createUnidentifiedRecord well_known [] [] None :: unit NDEFRecord),
            nextOffset = Some 0, isMessageEnd = False\<rparr>
   \<and> (parseNDEFMessage [0x03, 0x06, 0x01, 0x00, 0xFF, 0xFF, 0xFF, 0xFA, 0xFE]
        :: (error + unit NDEFRecord list) option) = None
   \<and> parseNDEFRecord [0x01, 0x00, 0xFF, 0xFF, 0xFF, 0xF8] (Some 0)
     = Inr \<lparr>ParsedNDEFRecordResult.record' =
              (createUnidentifiedRecord well_known [] [] None :: unit NDEFRecord),
            nextOffset = Some (- 2), isMessageEnd = False\<rparr>
   \<and> parseNDEFRecord [0x01, 0x00, 0xFF, 0xFF, 0xFF, 0xF8] (Some (- 2))
     = Inr \<lparr>ParsedNDEFRecordResult.record' =
              (createUnidentifiedRecord TNF.empty [] [] None :: unit NDEFRecord),
            nextOffset = None, isMessageEnd = False\<rparr>
   \<and> parseNDEFMessage [0x03, 0x06, 0x01, 0x00, 0xFF, 0xFF, 0xFF, 0xF8, 0xFE]
     = Some (Inr [createUnidentifiedRecord well_known [] [] None,
                  createUnidentifiedRecord TNF.empty [] [] None :: unit NDEFRecord])"
proof -
  let ?a = "[0x01, 0x00, 0xFF, 0xFF, 0xFF, 0xFA] :: byte list"
  let ?b = "[0x01, 0x00, 0xFF, 0xFF, 0xFF, 0xF8] :: byte list"
  let ?w = "createUnidentifiedRecord well_known [] [] None :: unit NDEFRecord"
  let ?e = "createUnidentifiedRecord TNF.empty [] [] None :: unit NDEFRecord"
  let ?ra = "\<lparr>ParsedNDEFRecordResult.record' = ?w, nextOffset = Some 0, isMessageEnd = False\<rparr>"
  let ?rb = "\<lparr>ParsedNDEFRecordResult.record' = ?w, nextOffset = Some (- 2), isMessageEnd = False\<rparr>"
  let ?rc = "\<lparr>ParsedNDEFRecordResult.record' = ?e, nextOffset = None, isMessageEnd = False\<rparr>"
  have a: "parseNDEFRecord ?a (Some 0) = Inr ?ra"
    by (simp add: parseNDEFRecord_def createNDEFRecordFromRawData_def createWellKnownRecord_def
      TextDecoder_decode_def
      readRecordFields_def parseNDEFRecordHeader_def js_ge_def js_gt_def js_add_def
      js_index_def js_length_def js_slice_def ToInt32_def TNFCodeLookup_def Let_def)
  have tlv_a: "validateAndStripTLV (stripLeadingTrailingZeros ([0x03, 0x06] @ ?a @ [0xFE])) = Inr ?a"
    by (simp add: stripLeadingTrailingZeros_def validateAndStripTLV_def js_slice_def)
  have "parseNDEFMessage_loop ?a (Some 0) ([] :: unit NDEFRecord list) = None"
    by (rule loop_does_not_return [OF _ a]) (simp_all add: js_lt_def js_length_def)
  then have never: "(parseNDEFMessage ([0x03, 0x06] @ ?a @ [0xFE])
      :: (error + unit NDEFRecord list) option) = None"
    using parseNDEFMessage_loop_eq [OF tlv_a, where ?'a = unit] by simp
  have b: "parseNDEFRecord ?b (Some 0) = Inr ?rb"
    by (simp add: parseNDEFRecord_def createNDEFRecordFromRawData_def createWellKnownRecord_def
      TextDecoder_decode_def
      readRecordFields_def parseNDEFRecordHeader_def js_ge_def js_gt_def js_add_def
      js_index_def js_length_def js_slice_def ToInt32_def TNFCodeLookup_def Let_def)
  have c: "parseNDEFRecord ?b (Some (- 2)) = Inr ?rc"
    by (simp add: parseNDEFRecord_def createNDEFRecordFromRawData_def createWellKnownRecord_def
      TextDecoder_decode_def
      readRecordFields_def parseNDEFRecordHeader_def js_ge_def js_gt_def js_add_def
      js_index_def js_length_def js_slice_def ToInt32_def TNFCodeLookup_def Let_def)
  have tlv_b: "validateAndStripTLV (stripLeadingTrailingZeros ([0x03, 0x06] @ ?b @ [0xFE])) = Inr ?b"
    by (simp add: stripLeadingTrailingZeros_def validateAndStripTLV_def js_slice_def)
  have "parseNDEFMessage_loop ?b None [?w, ?e] = Some (Inr [?w, ?e])"
    by (rule loop_unfold_exit) (simp add: js_lt_def)
  then have "parseNDEFMessage_loop ?b (Some (- 2)) [?w] = Some (Inr [?w, ?e])"
    using loop_unfold_round [OF _ c, of "[?w]"] by (simp add: js_lt_def js_length_def)
  then have "parseNDEFMessage_loop ?b (Some 0) [] = Some (Inr [?w, ?e])"
    using loop_unfold_round [OF _ b, of "[]"] by (simp add: js_lt_def js_length_def)
  then have two: "parseNDEFMessage ([0x03, 0x06] @ ?b @ [0xFE]) = Some (Inr [?w, ?e])"
    using parseNDEFMessage_loop_eq [OF tlv_b, where ?'a = unit] by simp
  from a never b c two show ?thesis by simp
qed

end
